theory Spec2Isabelle
  imports
    Main
    "HOL-Library.AList"
    "HOL-Library.Char_ord"
    "HOL-Library.List_Lexorder"
    "HOL-Library.Product_Lexorder"
begin

section \<open>The shared store\<close>

text \<open>
  \<^verbatim>\<open>crawler.worker.js\<close> keeps all of its shared state in Redis, through the node-redis
  client exported by \<^verbatim>\<open>config\<close>. The keys it uses are the string keys
  \<^verbatim>\<open>running-<listingUUID>\<close>, the hashes \<^verbatim>\<open>queued\<close>, \<^verbatim>\<open>userConfig\<close> and
  \<^verbatim>\<open>archives\<close>, the sorted set \<^verbatim>\<open>crawlers\<close> and the set \<^verbatim>\<open>recent_listings\<close>.

  The store is a keyspace per Redis type, each an association list from key names to
  contents, so that \<^verbatim>\<open>KEYS\<close> can list the names and \<^verbatim>\<open>HVALS\<close> returns the fields in
  the order they were written. A key is held under the type the commands use it with, so
  no command meets a key of another type; an aggregate (hash, sorted set, set) that
  becomes empty disappears from the keyspace, as in Redis. The store is taken to be
  reachable: no command fails for lack of a connection. Expiry is recorded (the \<^verbatim>\<open>EX\<close>
  option of \<^verbatim>\<open>SET\<close>) but time does not pass in the model.
\<close>

type_synonym key = string

record store =
  strings :: "(key \<times> string \<times> nat option) list"
  hashes :: "(key \<times> (string \<times> string) list) list"
  zsets :: "(key \<times> (string \<times> nat) list) list"
  sets :: "(key \<times> string list) list"

definition empty_store :: store where
  "empty_store = \<lparr>strings = [], hashes = [], zsets = [], sets = []\<rparr>"

subsection \<open>Keys\<close>

definition GET :: "key \<Rightarrow> store \<Rightarrow> string option" where
  "GET k s = map_option fst (map_of (strings s) k)"

definition expiry :: "key \<Rightarrow> store \<Rightarrow> nat option" where
  "expiry k s = (case map_of (strings s) k of None \<Rightarrow> None | Some (v, ex) \<Rightarrow> ex)"

definition DEL :: "key \<Rightarrow> store \<Rightarrow> store" where
  "DEL k s =
     \<lparr>strings = AList.delete k (strings s),
      hashes = AList.delete k (hashes s),
      zsets = AList.delete k (zsets s),
      sets = AList.delete k (sets s)\<rparr>"

text \<open>\<^verbatim>\<open>SET key value {EX: n}\<close> replaces whatever the key held.\<close>

definition SET :: "key \<Rightarrow> string \<Rightarrow> nat option \<Rightarrow> store \<Rightarrow> store" where
  "SET k v ex s = (DEL k s)\<lparr>strings := AList.update k (v, ex) (strings s)\<rparr>"

text \<open>
  Glob patterns: \<^verbatim>\<open>*\<close> matches any run of characters, every other character itself.
  (The two patterns of the program, \<^verbatim>\<open>queued-*\<close> and \<^verbatim>\<open>running-*\<close>, use nothing else.)
\<close>

fun glob :: "string \<Rightarrow> string \<Rightarrow> bool" where
  "glob [] cs = (cs = [])"
| "glob (p # ps) [] = (p = CHR ''*'' \<and> glob ps [])"
| "glob (p # ps) (c # cs) =
     (if p = CHR ''*'' then glob ps (c # cs) \<or> glob (p # ps) cs
      else p = c \<and> glob ps cs)"

definition all_keys :: "store \<Rightarrow> key list" where
  "all_keys s =
     remdups (map fst (strings s) @ map fst (hashes s) @ map fst (zsets s) @ map fst (sets s))"

definition KEYS :: "string \<Rightarrow> store \<Rightarrow> key list" where
  "KEYS pattern s = filter (glob pattern) (all_keys s)"

subsection \<open>Hashes\<close>

definition hash_at :: "key \<Rightarrow> store \<Rightarrow> (string \<times> string) list" where
  "hash_at k s = (case map_of (hashes s) k of None \<Rightarrow> [] | Some h \<Rightarrow> h)"

definition put_hash :: "key \<Rightarrow> (string \<times> string) list \<Rightarrow> store \<Rightarrow> store" where
  "put_hash k h s =
     s\<lparr>hashes := (if h = [] then AList.delete k (hashes s) else AList.update k h (hashes s))\<rparr>"

definition HSET :: "key \<Rightarrow> string \<Rightarrow> string \<Rightarrow> store \<Rightarrow> store" where
  "HSET k field v s = put_hash k (AList.update field v (hash_at k s)) s"

definition HGET :: "key \<Rightarrow> string \<Rightarrow> store \<Rightarrow> string option" where
  "HGET k field s = map_of (hash_at k s) field"

definition HVALS :: "key \<Rightarrow> store \<Rightarrow> string list" where
  "HVALS k s = map snd (hash_at k s)"

definition HKEYS :: "key \<Rightarrow> store \<Rightarrow> string list" where
  "HKEYS k s = map fst (hash_at k s)"

definition HDEL :: "key \<Rightarrow> string \<Rightarrow> store \<Rightarrow> store" where
  "HDEL k field s = put_hash k (AList.delete field (hash_at k s)) s"

subsection \<open>Sorted sets\<close>

definition zset_at :: "key \<Rightarrow> store \<Rightarrow> (string \<times> nat) list" where
  "zset_at k s = (case map_of (zsets s) k of None \<Rightarrow> [] | Some z \<Rightarrow> z)"

definition put_zset :: "key \<Rightarrow> (string \<times> nat) list \<Rightarrow> store \<Rightarrow> store" where
  "put_zset k z s =
     s\<lparr>zsets := (if z = [] then AList.delete k (zsets s) else AList.update k z (zsets s))\<rparr>"

definition ZSCORE :: "key \<Rightarrow> string \<Rightarrow> store \<Rightarrow> nat option" where
  "ZSCORE k member s = map_of (zset_at k s) member"

definition ZINCRBY :: "key \<Rightarrow> nat \<Rightarrow> string \<Rightarrow> store \<Rightarrow> store" where
  "ZINCRBY k increment member s =
     put_zset k
       (AList.update member
          ((case ZSCORE k member s of None \<Rightarrow> 0 | Some score \<Rightarrow> score) + increment)
          (zset_at k s)) s"

text \<open>Members are ranked by score, members of equal score by name.\<close>

definition ranked :: "(string \<times> nat) list \<Rightarrow> (string \<times> nat) list" where
  "ranked z = sort_key (\<lambda>(member, score). (score, member)) z"

definition rank_index :: "int \<Rightarrow> nat \<Rightarrow> int" where
  "rank_index i n = (if i < 0 then int n + i else i)"

definition ZREMRANGEBYRANK :: "key \<Rightarrow> int \<Rightarrow> int \<Rightarrow> store \<Rightarrow> store" where
  "ZREMRANGEBYRANK k start stop s =
     (let z = ranked (zset_at k s);
          n = length z;
          lo = max 0 (rank_index start n);
          hi = min (int n - 1) (rank_index stop n)
      in if hi < lo then s
         else put_zset k (take (nat lo) z @ drop (nat hi + 1) z) s)"

subsection \<open>Sets\<close>

definition set_at :: "key \<Rightarrow> store \<Rightarrow> string list" where
  "set_at k s = (case map_of (sets s) k of None \<Rightarrow> [] | Some m \<Rightarrow> m)"

definition put_set :: "key \<Rightarrow> string list \<Rightarrow> store \<Rightarrow> store" where
  "put_set k m s =
     s\<lparr>sets := (if m = [] then AList.delete k (sets s) else AList.update k m (sets s))\<rparr>"

definition SCARD :: "key \<Rightarrow> store \<Rightarrow> nat" where
  "SCARD k s = length (remdups (set_at k s))"

definition SADD :: "key \<Rightarrow> string \<Rightarrow> store \<Rightarrow> store" where
  "SADD k member s =
     (if member \<in> set (set_at k s) then s else put_set k (set_at k s @ [member]) s)"

text \<open>
  \<^verbatim>\<open>SPOP\<close> removes a member of Redis's choosing; the model removes the first one.
  No statement below depends on which member goes.
\<close>

definition SPOP :: "key \<Rightarrow> store \<Rightarrow> store" where
  "SPOP k s = (case set_at k s of [] \<Rightarrow> s | m # ms \<Rightarrow> put_set k (removeAll m ms) s)"

subsection \<open>Queued commands\<close>

text \<open>
  \<^verbatim>\<open>redis.multi()\<close> opens a queue of commands; each method call on it appends one command
  and \<^verbatim>\<open>exec()\<close> runs them in order, returning one reply per command.

  The client's methods take the arguments of their command and no more: \<^verbatim>\<open>HVALS\<close> and
  \<^verbatim>\<open>HKEYS\<close> take the key of the hash, \<^verbatim>\<open>DEL\<close> the key, and a further argument in a call
  is not part of what is sent.
\<close>

datatype command =
    HSET_cmd key string string
  | HVALS_cmd key
  | HKEYS_cmd key
  | SCARD_cmd key
  | SADD_cmd key string
  | SPOP_cmd key
  | DEL_cmd key

datatype reply = Integer nat | Bulk "string option" | Array "string list"

fun exec1 :: "command \<Rightarrow> store \<Rightarrow> reply \<times> store" where
  "exec1 (HSET_cmd k f v) s = (Integer (if HGET k f s = None then 1 else 0), HSET k f v s)"
| "exec1 (HVALS_cmd k) s = (Array (HVALS k s), s)"
| "exec1 (HKEYS_cmd k) s = (Array (HKEYS k s), s)"
| "exec1 (SCARD_cmd k) s = (Integer (SCARD k s), s)"
| "exec1 (SADD_cmd k m) s = (Integer (if m \<in> set (set_at k s) then 0 else 1), SADD k m s)"
| "exec1 (SPOP_cmd k) s = (Bulk (case set_at k s of [] \<Rightarrow> None | m # ms \<Rightarrow> Some m), SPOP k s)"
| "exec1 (DEL_cmd k) s = (Integer (if k \<in> set (all_keys s) then 1 else 0), DEL k s)"

fun exec :: "command list \<Rightarrow> store \<Rightarrow> reply list \<times> store" where
  "exec [] s = ([], s)"
| "exec (c # cs) s =
     (case exec1 c s of (r, s') \<Rightarrow> (case exec cs s' of (rs, s'') \<Rightarrow> (r # rs, s'')))"

fun elements :: "reply \<Rightarrow> string list" where
  "elements (Array xs) = xs"
| "elements (Bulk b) = []"
| "elements (Integer n) = []"

section \<open>JavaScript values\<close>

subsection \<open>Strings and arrays\<close>

text \<open>\<^verbatim>\<open>s.split(sep)\<close> for a one-character separator: never empty, \<^verbatim>\<open>''.split(' ')\<close> is \<^verbatim>\<open>['']\<close>.\<close>

fun js_split :: "char \<Rightarrow> string \<Rightarrow> string list" where
  "js_split sep [] = [[]]"
| "js_split sep (c # cs) =
     (if c = sep then [] # js_split sep cs
      else (case js_split sep cs of [] \<Rightarrow> [[c]] | w # ws \<Rightarrow> (c # w) # ws))"

text \<open>\<^verbatim>\<open>xs[i]\<close> is \<^verbatim>\<open>undefined\<close> (here \<open>None\<close>) out of range.\<close>

definition index :: "'a list \<Rightarrow> nat \<Rightarrow> 'a option" where
  "index xs i = (if i < length xs then Some (xs ! i) else None)"

text \<open>A value interpolated into a template literal; \<^verbatim>\<open>undefined\<close> prints as its name.\<close>

definition interpolate :: "string option \<Rightarrow> string" where
  "interpolate v = (case v of None \<Rightarrow> ''undefined'' | Some s \<Rightarrow> s)"

text \<open>The template literal \<^verbatim>\<open>`running-${uuid}`\<close>, the name of a lock.\<close>

definition running_key :: "string \<Rightarrow> key" where
  "running_key uuid = ''running-'' @ uuid"

text \<open>
  \<^verbatim>\<open>Array.from(new Set(xs))\<close>: a \<^verbatim>\<open>Set\<close> keeps its members in insertion order and
  ignores the insertion of a member it has.
\<close>

definition Set_add :: "'a list \<Rightarrow> 'a \<Rightarrow> 'a list" where
  "Set_add members x = (if x \<in> set members then members else members @ [x])"

definition Array_from_Set :: "'a list \<Rightarrow> 'a list" where
  "Array_from_Set xs = foldl Set_add [] xs"

subsection \<open>Numbers\<close>

text \<open>
  A method call on the command queue returns the queue itself (the calls chain); the
  reply of the command exists only after \<^verbatim>\<open>exec()\<close>. Where the program uses the value of
  such a call as a number, JavaScript converts the object: \<^verbatim>\<open>ToNumber\<close> of a plain
  object is \<^verbatim>\<open>NaN\<close>, every comparison with \<^verbatim>\<open>NaN\<close> is false and arithmetic on it
  gives \<^verbatim>\<open>NaN\<close>.
\<close>

datatype number = Num int | NaN

datatype jsval = Number number | Object

fun ToNumber :: "jsval \<Rightarrow> number" where
  "ToNumber (Number n) = n"
| "ToNumber Object = NaN"

fun number_less :: "number \<Rightarrow> number \<Rightarrow> bool" where
  "number_less (Num a) (Num b) = (a < b)"
| "number_less a b = False"

fun number_minus :: "number \<Rightarrow> number \<Rightarrow> number" where
  "number_minus (Num a) (Num b) = Num (a - b)"
| "number_minus a b = NaN"

fun number_plus :: "number \<Rightarrow> number \<Rightarrow> number" where
  "number_plus (Num a) (Num b) = Num (a + b)"
| "number_plus a b = NaN"

definition js_less :: "jsval \<Rightarrow> jsval \<Rightarrow> bool" where
  "js_less a b = number_less (ToNumber a) (ToNumber b)"

definition js_minus :: "jsval \<Rightarrow> jsval \<Rightarrow> number" where
  "js_minus a b = number_minus (ToNumber a) (ToNumber b)"

text \<open>A method call on the command queue: the command is appended, the queue returned.\<close>

definition queue :: "command \<Rightarrow> command list \<Rightarrow> jsval \<times> command list" where
  "queue c multi = (Object, multi @ [c])"

subsection \<open>JSON\<close>

text \<open>
  \<^verbatim>\<open>JSON.stringify\<close> on the values the program serialises: objects with their keys in
  insertion order, arrays, strings and whole numbers, written without white space;
  a string is quoted, with the quote, the backslash and the control characters escaped.
\<close>

datatype json = JNull | JNum int | JStr string | JArr "json list" | JObj "(string \<times> json) list"

definition digit_char :: "nat \<Rightarrow> char" where
  "digit_char n = ''0123456789abcdef'' ! n"

function decimal :: "nat \<Rightarrow> string" where
  "decimal n = (if n < 10 then [digit_char n] else decimal (n div 10) @ [digit_char (n mod 10)])"
  by pat_completeness auto
termination
  by (relation "measure id") auto

definition show_int :: "int \<Rightarrow> string" where
  "show_int i = (if i < 0 then CHR ''-'' # decimal (nat (- i)) else decimal (nat i))"

definition quote_char :: "char \<Rightarrow> string" where
  "quote_char c =
     (if c = CHR 0x22 then [CHR 0x5C, CHR 0x22]
      else if c = CHR 0x5C then [CHR 0x5C, CHR 0x5C]
      else if c = CHR 0x08 then [CHR 0x5C, CHR ''b'']
      else if c = CHR 0x0C then [CHR 0x5C, CHR ''f'']
      else if c = CHR 0x0A then [CHR 0x5C, CHR ''n'']
      else if c = CHR 0x0D then [CHR 0x5C, CHR ''r'']
      else if c = CHR 0x09 then [CHR 0x5C, CHR ''t'']
      else if (of_char c :: nat) < 32 then
        [CHR 0x5C, CHR ''u'', CHR ''0'', CHR ''0'',
         digit_char (of_char c div 16), digit_char (of_char c mod 16)]
      else [c])"

definition quote :: "string \<Rightarrow> string" where
  "quote s = CHR 0x22 # concat (map quote_char s) @ [CHR 0x22]"

fun commas :: "string list \<Rightarrow> string" where
  "commas [] = []"
| "commas [x] = x"
| "commas (x # y # zs) = x @ '','' @ commas (y # zs)"

fun JSON_stringify :: "json \<Rightarrow> string" where
  "JSON_stringify JNull = ''null''"
| "JSON_stringify (JNum n) = show_int n"
| "JSON_stringify (JStr s) = quote s"
| "JSON_stringify (JArr xs) = ''['' @ commas (map JSON_stringify xs) @ '']''"
| "JSON_stringify (JObj fs) =
     ''{'' @ commas (map (\<lambda>(k, v). quote k @ '':'' @ JSON_stringify v) fs) @ ''}''"

section \<open>The worker\<close>

subsection \<open>Requests, crawlers and payloads\<close>

text \<open>
  The \<^verbatim>\<open>options\<close> object of \<^verbatim>\<open>archive(options)\<close>. \<^verbatim>\<open>archive\<close> reads
  \<^verbatim>\<open>listingURL\<close>, \<^verbatim>\<open>listingUUID\<close> and \<^verbatim>\<open>clientId\<close>; the handler of \<^verbatim>\<open>crawled\<close> reads
  \<^verbatim>\<open>listingPid\<close>, which reaches it through the same object.
\<close>

record options =
  listingURL :: string
  listingUUID :: string
  listingPid :: string
  clientId :: string

text \<open>A request handed to a crawler: \<^verbatim>\<open>{ url, userData: { options } }\<close>.\<close>

record request =
  url :: "string option"
  userData :: options

text \<open>
  The \<^verbatim>\<open>PlaywrightCrawler\<close> is the external renderer. The model keeps what \<^verbatim>\<open>run\<close>
  reads and writes of it: whether it is running, and the requests it holds.
\<close>

record crawler =
  running :: bool
  requestQueue :: "request list"

text \<open>
  The payload of a \<^verbatim>\<open>crawled\<close> event, \<^verbatim>\<open>{ url, html, imageUrls, ...options }\<close>, and
  the record of the \<^verbatim>\<open>archived\<close> event, \<^verbatim>\<open>{ ...payload, gitUrl }\<close>.
\<close>

record payload = options +
  page_url :: "string option"
  html :: string
  imageUrls :: "string list"

record archived = payload +
  gitUrl :: string

text \<open>Line 147: what the request handler emits for a rendered page.\<close>

definition crawled :: "request \<Rightarrow> string \<Rightarrow> string list \<Rightarrow> payload" where
  "crawled req page images =
     \<lparr>listingURL = listingURL (userData req),
      listingUUID = listingUUID (userData req),
      listingPid = listingPid (userData req),
      clientId = clientId (userData req),
      page_url = url req,
      html = page,
      imageUrls = Array_from_Set images\<rparr>"

text \<open>The payload as the object \<^verbatim>\<open>JSON.stringify\<close> sees: an undefined field is left out.\<close>

definition payload_object :: "payload \<Rightarrow> (string \<times> json) list" where
  "payload_object p =
     (case page_url p of None \<Rightarrow> [] | Some u \<Rightarrow> [(''url'', JStr u)]) @
     [(''html'', JStr (html p)),
      (''imageUrls'', JArr (map JStr (imageUrls p))),
      (''listingURL'', JStr (listingURL p)),
      (''listingUUID'', JStr (listingUUID p)),
      (''listingPid'', JStr (listingPid p)),
      (''clientId'', JStr (clientId p))]"

definition archived_object :: "archived \<Rightarrow> (string \<times> json) list" where
  "archived_object a = payload_object (payload.truncate a) @ [(''gitUrl'', JStr (gitUrl a))]"

text \<open>What an external call threw.\<close>

datatype error = Thrown string

subsection \<open>\<^verbatim>\<open>addSetItem\<close> (lines 67 to 82)\<close>

text \<open>The loop \<^verbatim>\<open>for (let i = 0; i < membersToRemove; i++) multi.SPOP(setKey)\<close>.\<close>

function pop_loop :: "key \<Rightarrow> int \<Rightarrow> number \<Rightarrow> command list \<Rightarrow> command list" where
  "pop_loop setKey i membersToRemove multi =
     (if number_less (Num i) membersToRemove
      then pop_loop setKey (i + 1) membersToRemove (snd (queue (SPOP_cmd setKey) multi))
      else multi)"
  by pat_completeness auto
termination
  by (relation "measure (\<lambda>(k, i, m, q). case m of Num n \<Rightarrow> nat (n - i) | NaN \<Rightarrow> 0)")
     (auto split: number.splits elim: number_less.elims)

definition addSetItem :: "command list \<Rightarrow> key \<Rightarrow> string \<Rightarrow> int \<Rightarrow> command list" where
  "addSetItem multi setKey item maxSize =
     (case queue (SCARD_cmd setKey) multi of (currentSize, multi1) \<Rightarrow>
        if js_less currentSize (Number (Num maxSize))
        then snd (queue (SADD_cmd setKey item) multi1)
        else
          let membersToRemove =
                number_plus (js_minus currentSize (Number (Num maxSize))) (Num 1);
              multi2 = pop_loop setKey 0 membersToRemove multi1
          in snd (queue (SADD_cmd setKey item) multi2))"

subsection \<open>The handler of \<^verbatim>\<open>crawled\<close> (lines 17 to 28) and \<^verbatim>\<open>toRecentListing\<close>\<close>

text \<open>
  \<^verbatim>\<open>githubService.saveAdToPages\<close> and \<^verbatim>\<open>parserService.parseMetadata\<close> are external; they
  are parameters, and either may throw. \<^verbatim>\<open>Date.now()\<close> is the parameter \<open>now\<close>.
\<close>

definition toRecentListing :: "(string \<Rightarrow> error + json) \<Rightarrow> int \<Rightarrow> payload \<Rightarrow> error + json" where
  "toRecentListing parseMetadata now listing =
     (case parseMetadata (html listing) of
        Inl e \<Rightarrow> Inl e
      | Inr metadata \<Rightarrow>
          Inr (JObj [(''listingPid'', JStr (listingPid listing)),
                     (''metadata'', metadata),
                     (''createdAt'', JNum now)]))"

definition on_crawled ::
  "(string \<Rightarrow> string \<Rightarrow> string list \<Rightarrow> error + string) \<Rightarrow> (string \<Rightarrow> error + json) \<Rightarrow> int \<Rightarrow>
   payload \<Rightarrow> store \<Rightarrow> error + (store \<times> archived)" where
  "on_crawled saveAdToPages parseMetadata now p s =
     (case saveAdToPages (listingURL p) (html p) (imageUrls p) of
        Inl e \<Rightarrow> Inl e
      | Inr git \<Rightarrow>
          (case toRecentListing parseMetadata now p of
             Inl e \<Rightarrow> Inl e
           | Inr recentListing \<Rightarrow>
               let multi = snd (queue (HSET_cmd ''archives'' (listingPid p)
                                         (JSON_stringify (JObj (payload_object p)))) []);
                   multi' = addSetItem multi ''recent_listings'' (JSON_stringify recentListing) 10;
                   s' = snd (exec multi' s)
               in Inr (s', payload.extend p (archived.fields git))))"

subsection \<open>\<^verbatim>\<open>launchCrawler\<close> (lines 90 to 155)\<close>

definition launchCrawler :: "string \<Rightarrow> store \<Rightarrow> crawler \<times> store" where
  "launchCrawler client s =
     (\<lparr>running = False, requestQueue = []\<rparr>, ZINCRBY ''crawlers'' 1 client s)"

subsection \<open>\<^verbatim>\<open>run\<close> (lines 156 to 174)\<close>

text \<open>
  How the awaited \<^verbatim>\<open>crawler.run(...)\<close> ends is the renderer's doing, a parameter of the
  model. \<^verbatim>\<open>run\<close> catches what it throws, and the \<^verbatim>\<open>finally\<close> block follows either way.
  The function is the whole of \<^verbatim>\<open>run\<close>, from the call to the end of \<^verbatim>\<open>finally\<close>.
\<close>

datatype outcome = Completed | Threw error

definition addRequests :: "request list \<Rightarrow> crawler \<Rightarrow> crawler" where
  "addRequests reqs c = c\<lparr>requestQueue := requestQueue c @ reqs\<rparr>"

definition requests_of :: "string list \<Rightarrow> options \<Rightarrow> request list" where
  "requests_of urlMap opts =
     (let urls = map (\<lambda>m. index (js_split CHR '' '' m) 1) urlMap
      in map (\<lambda>u. \<lparr>url = u, userData = opts\<rparr>) urls)"

definition run :: "outcome \<Rightarrow> crawler \<Rightarrow> string list \<Rightarrow> options \<Rightarrow> store \<Rightarrow> crawler \<times> store" where
  "run ending c urlMap opts s =
     (let uuids = map (\<lambda>m. index (js_split CHR '' '' m) 0) urlMap;
          reqs = requests_of urlMap opts;
          c' = (if running c then addRequests reqs c
                else (case ending of
                        Completed \<Rightarrow> (addRequests reqs c)\<lparr>running := False, requestQueue := []\<rparr>
                      | Threw e \<Rightarrow> (addRequests reqs c)\<lparr>running := False\<rparr>));
          multi = foldl (\<lambda>multi uuid. snd (queue (DEL_cmd (running_key (interpolate uuid))) multi))
                    [] uuids
      in (c', snd (exec multi s)))"

subsection \<open>\<^verbatim>\<open>CrawlerWorker.archive\<close> (lines 31 to 62)\<close>

text \<open>
  The worker holds the registry \<^verbatim>\<open>this.crawlers\<close>, from tenant to crawler, next to the
  shared store.
\<close>

record worker =
  redis :: store
  crawlers :: "string \<rightharpoonup> crawler"

text \<open>
  The tenant's document in the hash \<^verbatim>\<open>userConfig\<close>, as \<^verbatim>\<open>JSON.parse\<close> returns it:
  \<^verbatim>\<open>null\<close>, or an object whose \<^verbatim>\<open>crawlerLimit\<close> is absent or a count.
\<close>

datatype user_config = Null | Config "nat option"

text \<open>\<^verbatim>\<open>userConfig?.crawlerLimit || 1\<close>\<close>

fun crawlerLimit :: "user_config \<Rightarrow> nat" where
  "crawlerLimit Null = 1"
| "crawlerLimit (Config None) = 1"
| "crawlerLimit (Config (Some n)) = (if n = 0 then 1 else n)"

text \<open>
  \<^verbatim>\<open>JSON.parse(reply)\<close> of line 39, for the reply of \<^verbatim>\<open>HGET\<close>. \<^verbatim>\<open>JSON.parse\<close> itself is
  a parameter: it returns the document or throws (a \<^verbatim>\<open>SyntaxError\<close>, when the text is
  not JSON). The reply for a missing field is \<^verbatim>\<open>null\<close>, which parses to \<^verbatim>\<open>null\<close>.
\<close>

definition userConfig_of ::
  "(string \<Rightarrow> error + user_config) \<Rightarrow> string option \<Rightarrow> error + user_config" where
  "userConfig_of JSON_parse reply =
     (case reply of None \<Rightarrow> Inr Null | Some doc \<Rightarrow> JSON_parse doc)"

text \<open>\<^verbatim>\<open>!isRunning\<close>: true of \<^verbatim>\<open>null\<close> (no such key) and of the empty string.\<close>

definition falsy :: "string option \<Rightarrow> bool" where
  "falsy v = (v = None \<or> v = Some [])"

text \<open>\<^verbatim>\<open>!numberOfCrawlers || numberOfCrawlers < limit\<close>\<close>

fun below_limit :: "nat option \<Rightarrow> nat \<Rightarrow> bool" where
  "below_limit None limit = True"
| "below_limit (Some n) limit = (n = 0 \<or> n < limit)"

definition entry_of :: "options \<Rightarrow> string" where
  "entry_of opts = listingUUID opts @ '' '' @ listingURL opts"

text \<open>
  \<^verbatim>\<open>archive\<close> is an \<^verbatim>\<open>async\<close> function: it runs up to an \<^verbatim>\<open>await\<close>, gives way, and is
  resumed with the awaited value; between two of its segments other calls of
  \<^verbatim>\<open>archive\<close>, runs and other processes may act on the store and the registry. A
  stage is where a call stands: at which \<^verbatim>\<open>await\<close>, with the value it will be resumed
  with and the locals it still needs. A command is executed when it is sent (one
  connection carries the commands in the order they are sent), so the stage holds its
  reply.

  \<^verbatim>\<open>archive\<close> does not await \<^verbatim>\<open>run(crawlers[clientId], urls, options)\<close>: its promise
  resolves with the run started, and the last stage names it, by the tenant whose
  crawler is passed, the batch and the options.
\<close>

type_synonym dispatch = "string \<times> string list \<times> options"

datatype stage =
    Called
  | Await_GET "string option"
  | Await_HGET "string option"
  | Await_ZSCORE user_config "nat option"
  | Await_SET user_config "nat option"
  | Await_exec user_config "nat option" "reply list"
  | Await_launchCrawler "string list" crawler
  | Resolved "dispatch option"
  | Rejected error

fun final :: "stage \<Rightarrow> bool" where
  "final (Resolved d) = True"
| "final (Rejected e) = True"
| "final k = False"

text \<open>
  One segment of \<^verbatim>\<open>archive(options)\<close>: from the stage the call stands at, on the
  worker as it is then, to the next \<^verbatim>\<open>await\<close> or to the end. \<open>now\<close> is
  \<^verbatim>\<open>new Date().toLocaleString()\<close> of line 42. \<^verbatim>\<open>launchCrawler\<close> has no \<^verbatim>\<open>await\<close> of its
  own, so it has done its work when \<^verbatim>\<open>archive\<close> awaits it; the registry is written when
  \<^verbatim>\<open>archive\<close> is resumed.
\<close>

fun resume ::
  "(string \<Rightarrow> error + user_config) \<Rightarrow> string \<Rightarrow> options \<Rightarrow> stage \<Rightarrow> worker \<Rightarrow> worker \<times> stage" where
  "resume JSON_parse now opts Called w =
     (w, Await_GET (GET (running_key (listingUUID opts)) (redis w)))"
| "resume JSON_parse now opts (Await_GET isRunning) w =
     (if falsy isRunning
      then (w, Await_HGET (HGET ''userConfig'' (clientId opts) (redis w)))
      else (w\<lparr>redis := HSET ''queued'' (clientId opts) (entry_of opts) (redis w)\<rparr>,
            Resolved None))"
| "resume JSON_parse now opts (Await_HGET reply) w =
     (case userConfig_of JSON_parse reply of
        Inl e \<Rightarrow> (w, Rejected e)
      | Inr userConfig \<Rightarrow>
          (w, Await_ZSCORE userConfig (ZSCORE ''crawlers'' (clientId opts) (redis w))))"
| "resume JSON_parse now opts (Await_ZSCORE userConfig numberOfCrawlers) w =
     (w\<lparr>redis := SET (running_key (listingUUID opts)) now (Some 30) (redis w)\<rparr>,
      Await_SET userConfig numberOfCrawlers)"
| "resume JSON_parse now opts (Await_SET userConfig numberOfCrawlers) w =
     (let multi = snd (queue (HKEYS_cmd ''queued'') (snd (queue (HVALS_cmd ''queued'') [])))
      in case exec multi (redis w) of
           (results, s) \<Rightarrow> (w\<lparr>redis := s\<rparr>, Await_exec userConfig numberOfCrawlers results))"
| "resume JSON_parse now opts (Await_exec userConfig numberOfCrawlers results) w =
     (let client = clientId opts;
          urls = filter (\<lambda>u. u \<noteq> [])
                   (Array_from_Set (elements (results ! 0) @ [entry_of opts]));
          s = fold (\<lambda>k. HDEL ''queued'' k) (elements (results ! 1)) (redis w)
      in if crawlers w client = None then
           (case launchCrawler client s of
              (c, s') \<Rightarrow> (w\<lparr>redis := s'\<rparr>, Await_launchCrawler urls c))
         else if below_limit numberOfCrawlers (crawlerLimit userConfig) then
           (case launchCrawler client s of
              (c, s') \<Rightarrow> (w\<lparr>redis := s'\<rparr>, Await_launchCrawler urls c))
         else (w\<lparr>redis := s\<rparr>, Resolved (Some (client, urls, opts))))"
| "resume JSON_parse now opts (Await_launchCrawler urls c) w =
     (w\<lparr>crawlers := (crawlers w)(clientId opts \<mapsto> c)\<rparr>,
      Resolved (Some (clientId opts, urls, opts)))"
| "resume JSON_parse now opts (Resolved d) w = (w, Resolved d)"
| "resume JSON_parse now opts (Rejected e) w = (w, Rejected e)"

text \<open>
  A call among others. \<open>others i\<close> is what everything else (other calls of
  \<^verbatim>\<open>archive\<close>, runs, other processes) has done to the worker by the time the call runs
  its segment \<open>i\<close>, counted from 0; it may be anything. \<open>resumes\<close> runs up to \<open>n\<close>
  further segments of the call, stopping when the call has ended.
\<close>

fun resumes ::
  "(string \<Rightarrow> error + user_config) \<Rightarrow> string \<Rightarrow> options \<Rightarrow> (nat \<Rightarrow> worker \<Rightarrow> worker) \<Rightarrow>
   nat \<Rightarrow> nat \<Rightarrow> worker \<times> stage \<Rightarrow> worker \<times> stage" where
  "resumes JSON_parse now opts others i 0 r = r"
| "resumes JSON_parse now opts others i (Suc n) r =
     (if final (snd r) then r
      else resumes JSON_parse now opts others (Suc i) n
             (resume JSON_parse now opts (snd r) (others i (fst r))))"

text \<open>The call after its first \<open>n\<close> segments; a call has at most seven.\<close>

definition archive_upto ::
  "nat \<Rightarrow> (string \<Rightarrow> error + user_config) \<Rightarrow> string \<Rightarrow> options \<Rightarrow> (nat \<Rightarrow> worker \<Rightarrow> worker) \<Rightarrow>
   worker \<Rightarrow> worker \<times> stage" where
  "archive_upto n JSON_parse now opts others w = resumes JSON_parse now opts others 0 n (w, Called)"

definition archive_among ::
  "(string \<Rightarrow> error + user_config) \<Rightarrow> string \<Rightarrow> options \<Rightarrow> (nat \<Rightarrow> worker \<Rightarrow> worker) \<Rightarrow>
   worker \<Rightarrow> worker \<times> stage" where
  "archive_among JSON_parse now opts others w = archive_upto 7 JSON_parse now opts others w"

text \<open>A call during which nothing else acts on the worker.\<close>

definition alone :: "nat \<Rightarrow> worker \<Rightarrow> worker" where
  "alone i w = w"

definition archive ::
  "(string \<Rightarrow> error + user_config) \<Rightarrow> string \<Rightarrow> options \<Rightarrow> worker \<Rightarrow> worker \<times> stage" where
  "archive JSON_parse now opts w = archive_among JSON_parse now opts alone w"

text \<open>
  A call of \<^verbatim>\<open>archive\<close> followed by the \<^verbatim>\<open>run\<close> it started, to its end, with no
  other call in between. The crawler passed to \<^verbatim>\<open>run\<close> is the one the registry holds
  for the tenant (lines 52 to 56 see to it that there is one), and what \<^verbatim>\<open>run\<close> does
  to it is written back.
\<close>

definition perform :: "outcome \<Rightarrow> worker \<times> stage \<Rightarrow> worker" where
  "perform ending r =
     (case r of
        (w, Resolved (Some (client, urls, opts))) \<Rightarrow>
          (case crawlers w client of
             None \<Rightarrow> w
           | Some c \<Rightarrow>
               (case run ending c urls opts (redis w) of
                  (c', s') \<Rightarrow> \<lparr>redis = s', crawlers = (crawlers w)(client \<mapsto> c')\<rparr>))
      | (w, k) \<Rightarrow> w)"

subsection \<open>The handler of \<^verbatim>\<open>SIGUSR2\<close> (lines 175 to 183)\<close>

definition SIGUSR2 :: "store \<Rightarrow> store" where
  "SIGUSR2 s =
     (let queuedKeys = KEYS ''queued-*'' s;
          runningKeys = KEYS ''running-*'' s
      in fold DEL runningKeys (fold DEL queuedKeys (ZREMRANGEBYRANK ''crawlers'' 0 (- 1) s)))"

section \<open>Notions used in the statements\<close>

text \<open>
  The batch of line 48, read off the store as \<^verbatim>\<open>archive\<close> finds it: the values of the
  hash \<^verbatim>\<open>queued\<close> and the entry of the request, without repetition, without empty
  strings.
\<close>

definition batch :: "options \<Rightarrow> store \<Rightarrow> string list" where
  "batch opts s = filter (\<lambda>u. u \<noteq> []) (Array_from_Set (HVALS ''queued'' s @ [entry_of opts]))"

text \<open>The store after lines 42 to 50: the lock set, every field of \<^verbatim>\<open>queued\<close> deleted.\<close>

definition drained :: "string \<Rightarrow> options \<Rightarrow> store \<Rightarrow> store" where
  "drained now opts s =
     fold (HDEL ''queued'') (HKEYS ''queued'' s)
       (SET (running_key (listingUUID opts)) now (Some 30) s)"

text \<open>
  The condition of lines 52 to 56 under which \<^verbatim>\<open>archive\<close> calls \<^verbatim>\<open>launchCrawler\<close>, for
  the configuration and the score the call has read and the registry as it is.
\<close>

definition creates_session :: "user_config \<Rightarrow> nat option \<Rightarrow> options \<Rightarrow> worker \<Rightarrow> bool" where
  "creates_session userConfig numberOfCrawlers opts w =
     (crawlers w (clientId opts) = None \<or>
      below_limit numberOfCrawlers (crawlerLimit userConfig))"

text \<open>The tenant's configuration as a call of \<^verbatim>\<open>archive\<close> reads it from the store.\<close>

definition config_of ::
  "(string \<Rightarrow> error + user_config) \<Rightarrow> string \<Rightarrow> store \<Rightarrow> error + user_config" where
  "config_of JSON_parse client s = userConfig_of JSON_parse (HGET ''userConfig'' client s)"

text \<open>The tenant's score in the sorted set \<^verbatim>\<open>crawlers\<close>, none counting as zero.\<close>

definition workers_recorded :: "string \<Rightarrow> store \<Rightarrow> nat" where
  "workers_recorded client s = (case ZSCORE ''crawlers'' client s of None \<Rightarrow> 0 | Some n \<Rightarrow> n)"

text \<open>
  A sequence of calls of \<^verbatim>\<open>archive\<close> on one worker, one after another: each call comes
  with the time it reads, its options, and the way the run it starts ends.
\<close>

type_synonym call = "string \<times> options \<times> outcome"

definition archive_call ::
  "(string \<Rightarrow> error + user_config) \<Rightarrow> call \<Rightarrow> worker \<Rightarrow> worker" where
  "archive_call JSON_parse c w =
     (case c of (now, opts, ending) \<Rightarrow> perform ending (archive JSON_parse now opts w))"


subsection \<open>Concrete stores, workers and requests\<close>

text \<open>
  \<^verbatim>\<open>JSON.parse\<close> on the three documents used below: \<^verbatim>\<open>null\<close>, the empty object, and a
  text that is not JSON, for which it throws.
\<close>

definition parse_sample :: "string \<Rightarrow> error + user_config" where
  "parse_sample doc =
     (if doc = ''null'' then Inr Null
      else if doc = ''{}'' then Inr (Config None)
      else Inl (Thrown ''SyntaxError''))"

definition fresh :: worker where
  "fresh = \<lparr>redis = empty_store, crawlers = Map.empty\<rparr>"

text \<open>The document of tenant \<^verbatim>\<open>t1\<close> in \<^verbatim>\<open>userConfig\<close> is cut short; no lock is held.\<close>

definition cut_config :: worker where
  "cut_config =
     \<lparr>redis =
        \<lparr>strings = [],
         hashes = [(''userConfig'', [(''t1'', ''{crawlerLimit'')])],
         zsets = [],
         sets = []\<rparr>,
      crawlers = Map.empty\<rparr>"

text \<open>The key \<^verbatim>\<open>running-u3\<close> is there and holds the empty string.\<close>

definition empty_lock :: worker where
  "empty_lock =
     \<lparr>redis = \<lparr>strings = [(''running-u3'', [], None)], hashes = [], zsets = [], sets = []\<rparr>,
      crawlers = Map.empty\<rparr>"

text \<open>A lock on \<^verbatim>\<open>abc\<close> is held, tenant \<^verbatim>\<open>t1\<close> has an entry queued and one crawler recorded.\<close>

definition held :: store where
  "held =
     \<lparr>strings = [(''running-abc'', ''11/3/2026, 6:00:00 AM'', Some 30)],
      hashes = [(''queued'', [(''t1'', ''abc http://x'')])],
      zsets = [(''crawlers'', [(''t1'', 1)])],
      sets = []\<rparr>"

definition waiting :: worker where
  "waiting = \<lparr>redis = held, crawlers = Map.empty\<rparr>"

definition request_abc :: options where
  "request_abc =
     \<lparr>listingURL = ''http://x'', listingUUID = ''abc'', listingPid = ''p0'', clientId = ''t1''\<rparr>"

text \<open>Two tenants have an entry queued each; no lock is held.\<close>

definition two_tenants :: worker where
  "two_tenants =
     \<lparr>redis =
        \<lparr>strings = [],
         hashes = [(''queued'', [(''t1'', ''u1 http://a''), (''t2'', ''u2 http://b'')])],
         zsets = [],
         sets = []\<rparr>,
      crawlers = Map.empty\<rparr>"

definition request3 :: options where
  "request3 =
     \<lparr>listingURL = ''http://c'', listingUUID = ''u3'', listingPid = ''p3'', clientId = ''t1''\<rparr>"

text \<open>Tenant \<^verbatim>\<open>t1\<close> has \<^verbatim>\<open>http://a\<close> queued under \<^verbatim>\<open>u1\<close>; the request asks for the same page under \<^verbatim>\<open>u2\<close>.\<close>

definition one_pending :: worker where
  "one_pending =
     \<lparr>redis =
        \<lparr>strings = [],
         hashes = [(''queued'', [(''t1'', ''u1 http://a'')])],
         zsets = [],
         sets = []\<rparr>,
      crawlers = Map.empty\<rparr>"

definition same_page :: options where
  "same_page =
     \<lparr>listingURL = ''http://a'', listingUUID = ''u2'', listingPid = ''p2'', clientId = ''t1''\<rparr>"

text \<open>
  A first request for \<^verbatim>\<open>u1\<close> arrives while \<^verbatim>\<open>u1\<close> is locked, a second for \<^verbatim>\<open>u2\<close>
  follows.
\<close>

definition u1_locked :: worker where
  "u1_locked =
     \<lparr>redis =
        \<lparr>strings = [(''running-u1'', ''11/3/2026, 6:00:00 AM'', Some 30)],
         hashes = [], zsets = [], sets = []\<rparr>,
      crawlers = Map.empty\<rparr>"

definition request1 :: options where
  "request1 =
     \<lparr>listingURL = ''http://a'', listingUUID = ''u1'', listingPid = ''p1'', clientId = ''t1''\<rparr>"

definition request2 :: options where
  "request2 =
     \<lparr>listingURL = ''http://b'', listingUUID = ''u2'', listingPid = ''p2'', clientId = ''t1''\<rparr>"

text \<open>Three locks are held.\<close>

definition three_locks :: store where
  "three_locks =
     \<lparr>strings = [(''running-u1'', ''11/3/2026, 6:00:00 AM'', Some 30),
                 (''running-u2'', ''11/3/2026, 6:00:01 AM'', Some 30),
                 (''running-u9'', ''11/3/2026, 6:00:02 AM'', Some 30)],
      hashes = [], zsets = [], sets = []\<rparr>"

definition idle :: crawler where
  "idle = \<lparr>running = False, requestQueue = []\<rparr>"

definition timed_out :: outcome where
  "timed_out = Threw (Thrown ''net::ERR_TIMED_OUT'')"


text \<open>Eleven inserts into the empty ledger, as the handler of \<^verbatim>\<open>crawled\<close> makes them.\<close>

definition insert_item :: "string \<Rightarrow> store \<Rightarrow> store" where
  "insert_item item s = snd (exec (addSetItem [] ''recent_listings'' item 10) s)"

definition eleven_items :: "string list" where
  "eleven_items =
     [''pid-a'', ''pid-b'', ''pid-c'', ''pid-d'', ''pid-e'', ''pid-f'',
      ''pid-g'', ''pid-h'', ''pid-i'', ''pid-j'', ''pid-k'']"

text \<open>A rendered page of \<^verbatim>\<open>request1\<close>, and external services that answer.\<close>

definition page1 :: payload where
  "page1 = crawled \<lparr>url = Some ''http://a'', userData = request1\<rparr> ''<html></html>'' [''http://a/1.jpg'']"

definition saved :: "string \<Rightarrow> string \<Rightarrow> string list \<Rightarrow> error + string" where
  "saved u h imgs = Inr ''https://pages.example/p1''"

definition parsed :: "string \<Rightarrow> error + json" where
  "parsed h = Inr (JObj [(''title'', JStr ''a'')])"

text \<open>
  Two calls of \<^verbatim>\<open>archive\<close> on one worker, each with its time and its options. A schedule
  says, resumption by resumption, which of the two is resumed next (\<open>True\<close>: the first).
\<close>

fun interleave :: "(string \<Rightarrow> error + user_config) \<Rightarrow> string \<times> options \<Rightarrow> string \<times> options \<Rightarrow>
    bool list \<Rightarrow> worker \<times> stage \<times> stage \<Rightarrow> worker \<times> stage \<times> stage" where
  "interleave JSON_parse a b [] r = r"
| "interleave JSON_parse a b (first # schedule) (w, sa, sb) =
     (if first
      then (case resume JSON_parse (fst a) (snd a) sa w of
              (w', sa') \<Rightarrow> interleave JSON_parse a b schedule (w', sa', sb))
      else (case resume JSON_parse (fst b) (snd b) sb w of
              (w', sb') \<Rightarrow> interleave JSON_parse a b schedule (w', sa, sb')))"

text \<open>
  Both calls are made before any reply has come, and the replies come in the order of
  the commands: the calls are resumed in turn up to the reply of \<^verbatim>\<open>multi.exec()\<close>; the
  first call then runs to its end (\<^verbatim>\<open>launchCrawler\<close> awaits nothing), and the second
  after it.
\<close>

definition in_turn :: "bool list" where
  "in_turn = [True, False, True, False, True, False, True, False, True, False,
              True, True, False, False]"

section \<open>Facts about the store\<close>

subsection \<open>One keyspace leaves the others alone\<close>

lemma strings_put_hash: "strings (put_hash k h s) = strings s"
  by (simp add: put_hash_def)

lemma strings_put_zset: "strings (put_zset k z s) = strings s"
  by (simp add: put_zset_def)

lemma strings_put_set: "strings (put_set k m s) = strings s"
  by (simp add: put_set_def)

lemma hash_at_put_hash: "hash_at k' (put_hash k h s) = (if k' = k then h else hash_at k' s)"
  by (simp add: hash_at_def put_hash_def update_conv' delete_conv')

lemma hash_at_put_zset: "hash_at k' (put_zset k z s) = hash_at k' s"
  by (simp add: hash_at_def put_zset_def)

lemma hash_at_put_set: "hash_at k' (put_set k m s) = hash_at k' s"
  by (simp add: hash_at_def put_set_def)

lemma zset_at_put_zset: "zset_at k' (put_zset k z s) = (if k' = k then z else zset_at k' s)"
  by (simp add: zset_at_def put_zset_def update_conv' delete_conv')

lemma zset_at_put_hash: "zset_at k' (put_hash k h s) = zset_at k' s"
  by (simp add: zset_at_def put_hash_def)

lemma zset_at_put_set: "zset_at k' (put_set k m s) = zset_at k' s"
  by (simp add: zset_at_def put_set_def)

lemma set_at_put_set: "set_at k' (put_set k m s) = (if k' = k then m else set_at k' s)"
  by (simp add: set_at_def put_set_def update_conv' delete_conv')

lemma set_at_put_hash: "set_at k' (put_hash k h s) = set_at k' s"
  by (simp add: set_at_def put_hash_def)

subsection \<open>\<^verbatim>\<open>DEL\<close> and \<^verbatim>\<open>SET\<close>\<close>

lemma GET_DEL: "GET k' (DEL k s) = (if k' = k then None else GET k' s)"
  by (simp add: GET_def DEL_def delete_conv')

lemma hash_at_DEL: "hash_at k' (DEL k s) = (if k' = k then [] else hash_at k' s)"
  by (simp add: hash_at_def DEL_def delete_conv')

lemma zset_at_DEL: "zset_at k' (DEL k s) = (if k' = k then [] else zset_at k' s)"
  by (simp add: zset_at_def DEL_def delete_conv')

lemma GET_fold_DEL: "GET k (fold DEL ks s) = (if k \<in> set ks then None else GET k s)"
  by (induction ks arbitrary: s) (auto simp: GET_DEL)

lemma hash_at_fold_DEL: "hash_at k (fold DEL ks s) = (if k \<in> set ks then [] else hash_at k s)"
  by (induction ks arbitrary: s) (auto simp: hash_at_DEL)

lemma zset_at_fold_DEL: "zset_at k (fold DEL ks s) = (if k \<in> set ks then [] else zset_at k s)"
  by (induction ks arbitrary: s) (auto simp: zset_at_DEL)

lemma GET_SET: "GET k' (SET k v ex s) = (if k' = k then Some v else GET k' s)"
  by (simp add: GET_def SET_def update_conv')

lemma expiry_SET: "expiry k' (SET k v ex s) = (if k' = k then ex else expiry k' s)"
  by (simp add: expiry_def SET_def update_conv')

lemma hash_at_SET: "hash_at k' (SET k v ex s) = (if k' = k then [] else hash_at k' s)"
  by (simp add: hash_at_def SET_def DEL_def delete_conv')

lemma zset_at_SET: "zset_at k' (SET k v ex s) = (if k' = k then [] else zset_at k' s)"
  by (simp add: zset_at_def SET_def DEL_def delete_conv')

text \<open>A lock is none of the keys the program keeps its other structures under.\<close>

lemma running_key_other:
  "running_key u \<noteq> ''queued''" "running_key u \<noteq> ''crawlers''"
  "running_key u \<noteq> ''userConfig''" "running_key u \<noteq> ''archives''"
  "''queued'' \<noteq> running_key u" "''crawlers'' \<noteq> running_key u"
  "''userConfig'' \<noteq> running_key u" "''archives'' \<noteq> running_key u"
  by (simp_all add: running_key_def)

subsection \<open>Hashes\<close>

lemma HGET_HSET:
  "HGET k' f' (HSET k f v s) = (if k' = k \<and> f' = f then Some v else HGET k' f' s)"
  by (simp add: HGET_def HSET_def hash_at_put_hash update_conv')

lemma hash_at_HSET:
  "hash_at k' (HSET k f v s) = (if k' = k then AList.update f v (hash_at k s) else hash_at k' s)"
  by (simp add: HSET_def hash_at_put_hash)

lemma zset_at_HSET: "zset_at k' (HSET k f v s) = zset_at k' s"
  by (simp add: HSET_def zset_at_put_hash)

lemma set_at_HSET: "set_at k' (HSET k f v s) = set_at k' s"
  by (simp add: HSET_def set_at_put_hash)

lemma HGET_in_HVALS: "HGET k f s = Some v \<Longrightarrow> v \<in> set (HVALS k s)"
  unfolding HGET_def HVALS_def by (metis map_of_SomeD set_zip_rightD zip_map_fst_snd)

lemma strings_fold_HDEL: "strings (fold (HDEL q) ks s) = strings s"
  by (induction ks arbitrary: s) (simp_all add: HDEL_def strings_put_hash)

lemma zset_at_fold_HDEL: "zset_at k (fold (HDEL q) ks s) = zset_at k s"
  by (induction ks arbitrary: s) (simp_all add: HDEL_def zset_at_put_hash)




lemma HVALS_SET: "k \<noteq> q \<Longrightarrow> HVALS q (SET k v ex s) = HVALS q s"
  by (simp add: HVALS_def hash_at_SET)

lemma HKEYS_SET: "k \<noteq> q \<Longrightarrow> HKEYS q (SET k v ex s) = HKEYS q s"
  by (simp add: HKEYS_def hash_at_SET)

subsection \<open>Sorted sets and sets\<close>

lemma GET_ZINCRBY: "GET k (ZINCRBY z i m s) = GET k s"
  by (simp add: GET_def ZINCRBY_def strings_put_zset)

lemma expiry_ZINCRBY: "expiry k (ZINCRBY z i m s) = expiry k s"
  by (simp add: expiry_def ZINCRBY_def strings_put_zset)


lemma ZSCORE_ZINCRBY:
  "ZSCORE k' m' (ZINCRBY k i m s) =
     (if k' = k \<and> m' = m then Some ((case ZSCORE k m s of None \<Rightarrow> 0 | Some n \<Rightarrow> n) + i)
      else ZSCORE k' m' s)"
  by (simp add: ZSCORE_def ZINCRBY_def zset_at_put_zset update_conv')

lemma length_ranked: "length (ranked z) = length z"
  by (simp add: ranked_def)

lemma ranked_Nil: "(ranked z = []) = (z = [])"
  using length_ranked[of z] by (metis length_0_conv)

text \<open>The range from rank 0 to rank -1 is the whole sorted set.\<close>

lemma zset_at_ZREMRANGEBYRANK_all: "zset_at k (ZREMRANGEBYRANK k 0 (- 1) s) = []"
proof (cases "zset_at k s = []")
  case True
  then show ?thesis
    by (simp add: ZREMRANGEBYRANK_def Let_def length_ranked rank_index_def zset_at_put_zset)
next
  case False
  then have "0 < length (zset_at k s)" by simp
  then show ?thesis
    by (simp add: ZREMRANGEBYRANK_def Let_def length_ranked rank_index_def zset_at_put_zset
        nat_diff_distrib' ranked_Nil)
qed

lemma hash_at_ZREMRANGEBYRANK: "hash_at k' (ZREMRANGEBYRANK k a b s) = hash_at k' s"
  by (simp add: ZREMRANGEBYRANK_def Let_def hash_at_put_zset)

lemma GET_ZREMRANGEBYRANK: "GET k' (ZREMRANGEBYRANK k a b s) = GET k' s"
  by (simp add: ZREMRANGEBYRANK_def Let_def GET_def strings_put_zset)

lemma zset_at_SADD: "zset_at k' (SADD k m s) = zset_at k' s"
  by (simp add: SADD_def zset_at_put_set)

lemma hash_at_SADD: "hash_at k' (SADD k m s) = hash_at k' s"
  by (simp add: SADD_def hash_at_put_set)

lemma set_at_SADD:
  "set (set_at k' (SADD k m s)) =
     (if k' = k then insert m (set (set_at k s)) else set (set_at k' s))"
  by (auto simp: SADD_def set_at_put_set)

subsection \<open>Queued commands\<close>

lemma snd_exec_Cons: "snd (exec (c # cs) s) = snd (exec cs (snd (exec1 c s)))"
  by (simp split: prod.splits)

lemma exec_DELs: "snd (exec (map DEL_cmd ks) s) = fold DEL ks s"
proof (induction ks arbitrary: s)
  case Nil
  show ?case by simp
next
  case (Cons k ks)
  have "snd (exec (map DEL_cmd (k # ks)) s) = snd (exec (map DEL_cmd ks) (DEL k s))"
    by (simp only: list.map snd_exec_Cons exec1.simps snd_conv)
  then show ?case by (simp add: Cons.IH)
qed

lemma foldl_queue: "foldl (\<lambda>multi x. snd (queue (f x) multi)) acc xs = acc @ map f xs"
  by (induction xs arbitrary: acc) (auto simp: queue_def)

lemma exec_reads:
  "exec (snd (queue (HKEYS_cmd q) (snd (queue (HVALS_cmd q) [])))) s =
     ([Array (HVALS q s), Array (HKEYS q s)], s)"
  by (simp add: queue_def)

section \<open>Facts about JavaScript values\<close>

lemma js_split_nonempty: "js_split sep cs \<noteq> []"
  by (induction cs) (auto split: list.splits)

lemma js_split_head: "sep \<notin> set a \<Longrightarrow> js_split sep (a @ sep # b) = a # js_split sep b"
  by (induction a) (auto split: list.splits simp: js_split_nonempty)

lemma index_0: "index (x # xs) 0 = Some x"
  by (simp add: index_def)

lemma Set_add_set: "set (foldl Set_add acc xs) = set acc \<union> set xs"
  by (induction xs arbitrary: acc) (auto simp: Set_add_def)

lemma Set_add_distinct: "distinct acc \<Longrightarrow> distinct (foldl Set_add acc xs)"
  by (induction xs arbitrary: acc) (auto simp: Set_add_def)

lemma set_Array_from_Set: "set (Array_from_Set xs) = set xs"
  by (simp add: Array_from_Set_def Set_add_set)

lemma distinct_Array_from_Set: "distinct (Array_from_Set xs)"
  by (simp add: Array_from_Set_def Set_add_distinct)

section \<open>Facts about the worker\<close>

subsection \<open>\<^verbatim>\<open>addSetItem\<close>\<close>

text \<open>
  \<^verbatim>\<open>currentSize\<close> is the command queue, not a number: the comparison with \<^verbatim>\<open>maxSize\<close>
  is false, \<^verbatim>\<open>membersToRemove\<close> is \<^verbatim>\<open>NaN\<close>, the loop does not run. Whatever the set
  holds, \<^verbatim>\<open>addSetItem\<close> queues \<^verbatim>\<open>SCARD\<close> and \<^verbatim>\<open>SADD\<close>, and never \<^verbatim>\<open>SPOP\<close>.
\<close>

lemma pop_loop_NaN: "pop_loop k i NaN multi = multi"
  by (subst pop_loop.simps) simp

lemma addSetItem_commands: "addSetItem multi k item n = multi @ [SCARD_cmd k, SADD_cmd k item]"
  by (simp add: addSetItem_def queue_def js_less_def js_minus_def pop_loop_NaN)

subsection \<open>\<^verbatim>\<open>run\<close>\<close>

lemma run_store:
  "snd (run ending c urlMap opts s) =
     fold DEL (map (\<lambda>m. running_key (interpolate (index (js_split CHR '' '' m) 0))) urlMap) s"
proof -
  have "snd (run ending c urlMap opts s) =
    snd (exec (map (\<lambda>u. DEL_cmd (running_key (interpolate u)))
                (map (\<lambda>m. index (js_split CHR '' '' m) 0) urlMap)) s)"
    by (simp add: run_def Let_def foldl_queue)
  also have "\<dots> =
    snd (exec (map DEL_cmd
                (map (\<lambda>m. running_key (interpolate (index (js_split CHR '' '' m) 0))) urlMap)) s)"
    by (simp add: comp_def)
  finally show ?thesis by (simp only: exec_DELs)
qed

lemma zset_at_run:
  "zset_at ''crawlers'' (snd (run ending c urlMap opts s)) = zset_at ''crawlers'' s"
  by (auto simp: run_store zset_at_fold_DEL running_key_other)


subsection \<open>The handler of \<^verbatim>\<open>crawled\<close>\<close>

lemma on_crawled_ok:
  assumes "saveAdToPages (listingURL p) (html p) (imageUrls p) = Inr git"
      and "parseMetadata (html p) = Inr metadata"
  shows "on_crawled saveAdToPages parseMetadata now p s =
    Inr (SADD ''recent_listings''
           (JSON_stringify (JObj [(''listingPid'', JStr (listingPid p)),
                                  (''metadata'', metadata), (''createdAt'', JNum now)]))
           (HSET ''archives'' (listingPid p) (JSON_stringify (JObj (payload_object p))) s),
         payload.extend p (archived.fields git))"
  using assms
  by (simp add: on_crawled_def toRecentListing_def Let_def addSetItem_commands queue_def
       del: JSON_stringify.simps)

lemma on_crawled_zset:
  "on_crawled saveAdToPages parseMetadata now p s = Inr (s', a) \<Longrightarrow> zset_at k s' = zset_at k s"
  by (auto simp: on_crawled_def toRecentListing_def Let_def addSetItem_commands queue_def
      zset_at_SADD zset_at_HSET split: sum.splits simp del: JSON_stringify.simps)

subsection \<open>The handler of \<^verbatim>\<open>SIGUSR2\<close>\<close>

lemma glob_star: "glob ''*'' k"
  by (induction k) auto

lemma glob_prefix: "CHR ''*'' \<notin> set p \<Longrightarrow> glob (p @ ''*'') k = (take (length p) k = p)"
proof (induction p arbitrary: k)
  case Nil
  show ?case by (simp add: glob_star)
next
  case (Cons a p)
  then show ?case by (cases k) auto
qed

lemma set_all_keys_strings: "GET k s \<noteq> None \<Longrightarrow> k \<in> set (all_keys s)"
  by (auto simp: GET_def all_keys_def map_of_eq_None_iff)

lemma GET_SIGUSR2: "GET (running_key u) (SIGUSR2 s) = None"
proof (cases "GET (running_key u) s")
  case None
  then show ?thesis
    by (simp add: SIGUSR2_def Let_def GET_fold_DEL GET_ZREMRANGEBYRANK)
next
  case (Some v)
  then have "running_key u \<in> set (all_keys s)"
    by (simp add: set_all_keys_strings)
  moreover have "glob ''running-*'' (running_key u)"
    using glob_prefix[of "''running-''" "running_key u"] by (simp add: running_key_def)
  ultimately have "running_key u \<in> set (KEYS ''running-*'' s)"
    by (simp add: KEYS_def)
  then show ?thesis
    by (simp add: SIGUSR2_def Let_def GET_fold_DEL)
qed

lemma zset_at_SIGUSR2: "zset_at ''crawlers'' (SIGUSR2 s) = []"
  by (simp add: SIGUSR2_def Let_def zset_at_fold_DEL zset_at_ZREMRANGEBYRANK_all)

text \<open>Neither pattern of the handler matches the key \<^verbatim>\<open>queued\<close>, so the hash stays.\<close>

lemma hash_at_SIGUSR2: "hash_at ''queued'' (SIGUSR2 s) = hash_at ''queued'' s"
  by (simp add: SIGUSR2_def Let_def hash_at_fold_DEL KEYS_def hash_at_ZREMRANGEBYRANK)

subsection \<open>\<^verbatim>\<open>archive\<close>\<close>


lemma resume_exec:
  "resume P now opts (Await_SET u n) w =
     (w, Await_exec u n [Array (HVALS ''queued'' (redis w)), Array (HKEYS ''queued'' (redis w))])"
  by (simp add: exec_reads)

lemma resume_launch:
  "resume P now opts (Await_exec u n [Array vals, Array keys]) w =
     (if creates_session u n opts w
      then (w\<lparr>redis := ZINCRBY ''crawlers'' 1 (clientId opts) (fold (HDEL ''queued'') keys (redis w))\<rparr>,
            Await_launchCrawler (filter (\<lambda>u. u \<noteq> []) (Array_from_Set (vals @ [entry_of opts])))
              \<lparr>running = False, requestQueue = []\<rparr>)
      else (w\<lparr>redis := fold (HDEL ''queued'') keys (redis w)\<rparr>,
            Resolved (Some (clientId opts,
              filter (\<lambda>u. u \<noteq> []) (Array_from_Set (vals @ [entry_of opts])), opts))))"
  by (simp add: Let_def launchCrawler_def creates_session_def)

text \<open>The call alone, in one piece.\<close>

lemma archive_alone:
  "archive P now opts w =
     (if \<not> falsy (GET (running_key (listingUUID opts)) (redis w))
      then (w\<lparr>redis := HSET ''queued'' (clientId opts) (entry_of opts) (redis w)\<rparr>, Resolved None)
      else case config_of P (clientId opts) (redis w) of
             Inl e \<Rightarrow> (w, Rejected e)
           | Inr u \<Rightarrow>
               (if creates_session u (ZSCORE ''crawlers'' (clientId opts) (redis w)) opts w
                then \<lparr>redis = ZINCRBY ''crawlers'' 1 (clientId opts) (drained now opts (redis w)),
                       crawlers = (crawlers w)(clientId opts \<mapsto> \<lparr>running = False, requestQueue = []\<rparr>)\<rparr>
                else \<lparr>redis = drained now opts (redis w), crawlers = crawlers w\<rparr>,
                Resolved (Some (clientId opts, batch opts (redis w), opts))))"
  by (simp add: archive_def archive_among_def archive_upto_def alone_def eval_nat_numeral
      config_of_def resume_exec resume_launch drained_def batch_def creates_session_def
      HVALS_SET HKEYS_SET running_key_other
      del: resume.simps(5,6) split: sum.splits)

lemma GET_drained:
  "GET k (drained now opts s) =
     (if k = running_key (listingUUID opts) then Some now else GET k s)"
  by (simp add: drained_def GET_def strings_fold_HDEL) (simp add: SET_def update_conv')

lemma expiry_drained:
  "expiry k (drained now opts s) =
     (if k = running_key (listingUUID opts) then Some 30 else expiry k s)"
  by (simp add: drained_def expiry_def strings_fold_HDEL) (simp add: SET_def update_conv')


lemma zset_at_drained:
  "zset_at k (drained now opts s) =
     (if k = running_key (listingUUID opts) then [] else zset_at k s)"
  by (simp add: drained_def zset_at_fold_HDEL zset_at_SET)

text \<open>Whether the call alone launches a crawler.\<close>

lemma launches_cases:
  obtains (queued) "\<not> falsy (GET (running_key (listingUUID opts)) (redis w))"
        | (rejected) e where "falsy (GET (running_key (listingUUID opts)) (redis w))"
            "config_of P (clientId opts) (redis w) = Inl e"
        | (dispatched) u where "falsy (GET (running_key (listingUUID opts)) (redis w))"
            "config_of P (clientId opts) (redis w) = Inr u"
  by (cases "config_of P (clientId opts) (redis w)") auto

lemma ZSCORE_archive:
  "ZSCORE ''crawlers'' c (redis (fst (archive P now opts w))) =
     (if falsy (GET (running_key (listingUUID opts)) (redis w))
         \<and> (\<exists>u. config_of P (clientId opts) (redis w) = Inr u
                \<and> creates_session u (ZSCORE ''crawlers'' (clientId opts) (redis w)) opts w)
         \<and> c = clientId opts
      then Some (workers_recorded c (redis w) + 1)
      else ZSCORE ''crawlers'' c (redis w))"
proof (cases rule: launches_cases[where opts = opts and w = w and P = P])
  case queued
  then show ?thesis
    by (simp add: archive_alone ZSCORE_def zset_at_HSET)
next
  case (rejected e)
  then show ?thesis
    by (simp add: archive_alone)
next
  case (dispatched u)
  have "\<And>c. ZSCORE ''crawlers'' c (drained now opts (redis w)) = ZSCORE ''crawlers'' c (redis w)"
    by (simp add: ZSCORE_def zset_at_drained running_key_other)
  then show ?thesis
    using dispatched by (simp add: archive_alone ZSCORE_ZINCRBY workers_recorded_def)
qed



subsection \<open>A call and its run\<close>

lemma zset_at_perform:
  "zset_at ''crawlers'' (redis (perform ending r)) = zset_at ''crawlers'' (redis (fst r))"
  by (auto simp: perform_def split: prod.splits option.splits stage.splits)
     (metis zset_at_run snd_conv)



lemma ZSCORE_call:
  "ZSCORE ''crawlers'' c (redis (archive_call P (now, opts, ending) w)) =
     (if falsy (GET (running_key (listingUUID opts)) (redis w))
         \<and> (\<exists>u. config_of P (clientId opts) (redis w) = Inr u
                \<and> creates_session u (ZSCORE ''crawlers'' (clientId opts) (redis w)) opts w)
         \<and> c = clientId opts
      then Some (workers_recorded c (redis w) + 1)
      else ZSCORE ''crawlers'' c (redis w))"
  using ZSCORE_archive[of c P now opts w]
  by (simp add: archive_call_def ZSCORE_def zset_at_perform)



subsection \<open>The limit is kept from one call to the next\<close>





lemma workers_recorded_call:
  "workers_recorded c (redis w) \<le> workers_recorded c (redis (archive_call P call w))"
  by (cases call) (simp add: workers_recorded_def ZSCORE_call split: option.splits)

lemma workers_recorded_calls:
  "workers_recorded c (redis w) \<le> workers_recorded c (redis (fold (archive_call P) calls w))"
proof (induction calls arbitrary: w)
  case Nil
  show ?case by simp
next
  case (Cons call calls)
  have "workers_recorded c (redis w) \<le> workers_recorded c (redis (archive_call P call w))"
    by (rule workers_recorded_call)
  also have "\<dots> \<le> workers_recorded c (redis (fold (archive_call P) calls (archive_call P call w)))"
    by (rule Cons.IH)
  finally show ?case by simp
qed

lemma score_kept_call:
  "ZSCORE ''crawlers'' c (redis w) \<noteq> None \<Longrightarrow>
   ZSCORE ''crawlers'' c (redis (archive_call P call w)) \<noteq> None"
  by (cases call) (simp add: ZSCORE_call)

lemma score_kept_calls:
  "ZSCORE ''crawlers'' c (redis w) \<noteq> None \<Longrightarrow>
   ZSCORE ''crawlers'' c (redis (fold (archive_call P) calls w)) \<noteq> None"
proof (induction calls arbitrary: w)
  case Nil
  then show ?case by simp
next
  case (Cons call calls)
  have "ZSCORE ''crawlers'' c (redis (archive_call P call w)) \<noteq> None"
    using Cons.prems by (rule score_kept_call)
  then have "ZSCORE ''crawlers'' c
      (redis (fold (archive_call P) calls (archive_call P call w))) \<noteq> None"
    by (rule Cons.IH)
  then show ?case by simp
qed

subsection \<open>A call among others\<close>

lemma among_ends: "final (snd (archive_among P now opts others w))"
  by (simp add: archive_among_def archive_upto_def eval_nat_numeral resume_exec resume_launch
      del: resume.simps(5,6) split: sum.splits)

lemma among_queues:
  "\<not> falsy (GET (running_key (listingUUID opts)) (redis (others 0 w))) \<Longrightarrow>
   archive_among P now opts others w =
     ((others 1 (others 0 w))\<lparr>redis := HSET ''queued'' (clientId opts) (entry_of opts)
         (redis (others 1 (others 0 w)))\<rparr>, Resolved None)"
  by (simp add: archive_among_def archive_upto_def eval_nat_numeral)

lemma among_rejects:
  "falsy (GET (running_key (listingUUID opts)) (redis (others 0 w))) \<Longrightarrow>
   config_of P (clientId opts) (redis (others 1 (others 0 w))) = Inl e \<Longrightarrow>
   archive_among P now opts others w = (others 2 (others 1 (others 0 w)), Rejected e)"
  by (simp add: archive_among_def archive_upto_def eval_nat_numeral config_of_def)

lemma among_locks:
  "falsy (GET (running_key (listingUUID opts)) (redis (others 0 w))) \<Longrightarrow>
   config_of P (clientId opts) (redis (others 1 (others 0 w))) = Inr u \<Longrightarrow>
   GET (running_key (listingUUID opts)) (redis (fst (archive_upto 4 P now opts others w))) = Some now
   \<and> expiry (running_key (listingUUID opts)) (redis (fst (archive_upto 4 P now opts others w))) =
       Some 30"
  by (simp add: archive_upto_def eval_nat_numeral config_of_def GET_SET expiry_SET)

lemma among_dispatches:
  "falsy (GET (running_key (listingUUID opts)) (redis (others 0 w))) \<Longrightarrow>
   config_of P (clientId opts) (redis (others 1 (others 0 w))) = Inr u \<Longrightarrow>
   (\<exists>urls. snd (archive_among P now opts others w) = Resolved (Some (clientId opts, urls, opts))
      \<and> entry_of opts \<in> set urls)
   \<and> crawlers (fst (archive_among P now opts others w)) (clientId opts) \<noteq> None"
  by (simp add: archive_among_def archive_upto_def eval_nat_numeral config_of_def
      resume_exec resume_launch set_Array_from_Set entry_of_def creates_session_def
      del: resume.simps(5,6))

subsection \<open>The launch test\<close>





section \<open>Claims\<close>

subsection \<open>C1: the value of the lock decides between queueing and dispatching\<close>

text \<open>
  C1 says that a call of \<^verbatim>\<open>archive\<close> queues when the key \<^verbatim>\<open>running-<listingUUID>\<close> is
  in the store, and sets the lock and dispatches when it is not. Line 36 tests the
  value, \<^verbatim>\<open>!isRunning\<close>, and line 39 parses the tenant's configuration before the lock
  is set. With no lock in the store and a configuration of the tenant that is not
  JSON, the call rejects: no lock, no dispatch. With the key in the store holding the
  empty string, the call sets the lock and dispatches.
\<close>

theorem lock_absent_and_no_dispatch:
  "GET (running_key (listingUUID request3)) (redis cut_config) = None
   \<and> snd (archive parse_sample ''11/3/2026, 6:00:10 AM'' request3 cut_config) =
       Rejected (Thrown ''SyntaxError'')
   \<and> GET (running_key (listingUUID request3))
        (redis (fst (archive parse_sample ''11/3/2026, 6:00:10 AM'' request3 cut_config))) = None
   \<and> GET (running_key (listingUUID request3)) (redis empty_lock) = Some []
   \<and> snd (archive parse_sample ''11/3/2026, 6:00:10 AM'' request3 empty_lock) =
       Resolved (Some (''t1'', [''u3 http://c''], request3))
   \<and> GET (running_key (listingUUID request3))
        (redis (fst (archive parse_sample ''11/3/2026, 6:00:10 AM'' request3 empty_lock))) =
       Some ''11/3/2026, 6:00:10 AM''"
  by code_simp

text \<open>
  C1, amended. Every call of \<^verbatim>\<open>archive\<close> ends, resolved or rejected, whatever else acts
  on the store and the registry between its segments. If the \<^verbatim>\<open>GET\<close> of line 34 returns
  a value that is not the empty string, the call writes \<^verbatim>\<open>"<listingUUID> <listingURL>"\<close>
  as the tenant's field of \<^verbatim>\<open>queued\<close> and does nothing else: it sets no lock and starts no
  run. If it returns nothing or the empty string, the call parses the tenant's
  configuration: if \<^verbatim>\<open>JSON.parse\<close> throws, the call rejects with what was thrown, having
  written nothing; otherwise it sets \<^verbatim>\<open>running-<listingUUID>\<close> with an expiry of 30
  seconds (the store holds the lock when that segment is done) and ends having started a
  run, on the tenant's crawler, which the registry then holds, of a batch that holds
  the entry of the request. For a call during which nothing else acts, the worker it
  leaves holds the lock, and the batch is the one read off the store the call found.
\<close>

theorem archive_lock_gate:
  "final (snd (archive_among JSON_parse now opts others w))
   \<and> (\<not> falsy (GET (running_key (listingUUID opts)) (redis (others 0 w))) \<longrightarrow>
        archive_among JSON_parse now opts others w =
          ((others 1 (others 0 w))
             \<lparr>redis := HSET ''queued'' (clientId opts)
                         (listingUUID opts @ '' '' @ listingURL opts)
                         (redis (others 1 (others 0 w)))\<rparr>,
           Resolved None))
   \<and> (falsy (GET (running_key (listingUUID opts)) (redis (others 0 w)))
        \<and> config_of JSON_parse (clientId opts) (redis (others 1 (others 0 w))) = Inl e \<longrightarrow>
        archive_among JSON_parse now opts others w =
          (others 2 (others 1 (others 0 w)), Rejected e))
   \<and> (falsy (GET (running_key (listingUUID opts)) (redis (others 0 w)))
        \<and> config_of JSON_parse (clientId opts) (redis (others 1 (others 0 w))) = Inr u \<longrightarrow>
        GET (running_key (listingUUID opts))
          (redis (fst (archive_upto 4 JSON_parse now opts others w))) = Some now
        \<and> expiry (running_key (listingUUID opts))
            (redis (fst (archive_upto 4 JSON_parse now opts others w))) = Some 30
        \<and> (\<exists>urls. snd (archive_among JSON_parse now opts others w) =
                     Resolved (Some (clientId opts, urls, opts))
              \<and> listingUUID opts @ '' '' @ listingURL opts \<in> set urls)
        \<and> crawlers (fst (archive_among JSON_parse now opts others w)) (clientId opts) \<noteq> None)
   \<and> (\<not> falsy (GET (running_key (listingUUID opts)) (redis w)) \<longrightarrow>
        archive JSON_parse now opts w =
          (w\<lparr>redis := HSET ''queued'' (clientId opts)
                         (listingUUID opts @ '' '' @ listingURL opts) (redis w)\<rparr>,
           Resolved None)
        \<and> HGET ''queued'' (clientId opts) (redis (fst (archive JSON_parse now opts w))) =
            Some (listingUUID opts @ '' '' @ listingURL opts)
        \<and> strings (redis (fst (archive JSON_parse now opts w))) = strings (redis w)
        \<and> zsets (redis (fst (archive JSON_parse now opts w))) = zsets (redis w)
        \<and> crawlers (fst (archive JSON_parse now opts w)) = crawlers w)
   \<and> (falsy (GET (running_key (listingUUID opts)) (redis w))
        \<and> config_of JSON_parse (clientId opts) (redis w) = Inl e \<longrightarrow>
        archive JSON_parse now opts w = (w, Rejected e))
   \<and> (falsy (GET (running_key (listingUUID opts)) (redis w))
        \<and> config_of JSON_parse (clientId opts) (redis w) = Inr u \<longrightarrow>
        GET (running_key (listingUUID opts)) (redis (fst (archive JSON_parse now opts w))) =
          Some now
        \<and> expiry (running_key (listingUUID opts)) (redis (fst (archive JSON_parse now opts w))) =
            Some 30
        \<and> snd (archive JSON_parse now opts w) =
            Resolved (Some (clientId opts, batch opts (redis w), opts))
        \<and> crawlers (fst (archive JSON_parse now opts w)) (clientId opts) \<noteq> None)"
proof (intro conjI impI)
  show "final (snd (archive_among JSON_parse now opts others w))"
    by (rule among_ends)
next
  assume "\<not> falsy (GET (running_key (listingUUID opts)) (redis (others 0 w)))"
  then show "archive_among JSON_parse now opts others w =
          ((others 1 (others 0 w))
             \<lparr>redis := HSET ''queued'' (clientId opts)
                         (listingUUID opts @ '' '' @ listingURL opts)
                         (redis (others 1 (others 0 w)))\<rparr>,
           Resolved None)"
    using among_queues[of opts others w JSON_parse now] by (simp add: entry_of_def)
next
  assume "falsy (GET (running_key (listingUUID opts)) (redis (others 0 w)))
        \<and> config_of JSON_parse (clientId opts) (redis (others 1 (others 0 w))) = Inl e"
  then show "archive_among JSON_parse now opts others w =
          (others 2 (others 1 (others 0 w)), Rejected e)"
    by (simp add: among_rejects)
next
  assume h: "falsy (GET (running_key (listingUUID opts)) (redis (others 0 w)))
        \<and> config_of JSON_parse (clientId opts) (redis (others 1 (others 0 w))) = Inr u"
  from h among_locks[of opts others w JSON_parse u now]
  show "GET (running_key (listingUUID opts))
          (redis (fst (archive_upto 4 JSON_parse now opts others w))) = Some now"
    by simp
  from h among_locks[of opts others w JSON_parse u now]
  show "expiry (running_key (listingUUID opts))
            (redis (fst (archive_upto 4 JSON_parse now opts others w))) = Some 30"
    by simp
  from h among_dispatches[of opts others w JSON_parse u now]
  show "\<exists>urls. snd (archive_among JSON_parse now opts others w) =
                     Resolved (Some (clientId opts, urls, opts))
              \<and> listingUUID opts @ '' '' @ listingURL opts \<in> set urls"
    by (simp add: entry_of_def)
  from h among_dispatches[of opts others w JSON_parse u now]
  show "crawlers (fst (archive_among JSON_parse now opts others w)) (clientId opts) \<noteq> None"
    by simp
next
  assume q: "\<not> falsy (GET (running_key (listingUUID opts)) (redis w))"
  then show "archive JSON_parse now opts w =
          (w\<lparr>redis := HSET ''queued'' (clientId opts)
                         (listingUUID opts @ '' '' @ listingURL opts) (redis w)\<rparr>,
           Resolved None)"
    by (simp add: archive_alone entry_of_def)
  from q show "HGET ''queued'' (clientId opts) (redis (fst (archive JSON_parse now opts w))) =
            Some (listingUUID opts @ '' '' @ listingURL opts)"
    by (simp add: archive_alone entry_of_def HGET_HSET)
  from q show "strings (redis (fst (archive JSON_parse now opts w))) = strings (redis w)"
    by (simp add: archive_alone HSET_def strings_put_hash)
  from q show "zsets (redis (fst (archive JSON_parse now opts w))) = zsets (redis w)"
    by (simp add: archive_alone HSET_def put_hash_def)
  from q show "crawlers (fst (archive JSON_parse now opts w)) = crawlers w"
    by (simp add: archive_alone)
next
  assume "falsy (GET (running_key (listingUUID opts)) (redis w))
        \<and> config_of JSON_parse (clientId opts) (redis w) = Inl e"
  then show "archive JSON_parse now opts w = (w, Rejected e)"
    by (simp add: archive_alone)
next
  assume d: "falsy (GET (running_key (listingUUID opts)) (redis w))
        \<and> config_of JSON_parse (clientId opts) (redis w) = Inr u"
  then show "GET (running_key (listingUUID opts)) (redis (fst (archive JSON_parse now opts w))) =
          Some now"
    by (simp add: archive_alone GET_ZINCRBY GET_drained)
  from d show "expiry (running_key (listingUUID opts))
      (redis (fst (archive JSON_parse now opts w))) = Some 30"
    by (simp add: archive_alone expiry_ZINCRBY expiry_drained)
  from d show "snd (archive JSON_parse now opts w) =
            Resolved (Some (clientId opts, batch opts (redis w), opts))"
    by (simp add: archive_alone)
  from d show "crawlers (fst (archive JSON_parse now opts w)) (clientId opts) \<noteq> None"
    by (simp add: archive_alone creates_session_def)
qed

text \<open>
  The cases at concrete inputs: a request for \<^verbatim>\<open>abc\<close> while \<^verbatim>\<open>running-abc\<close> holds a
  date, a request for \<^verbatim>\<open>u3\<close> while no lock is held and the tenant has no configuration,
  and the same request when the tenant's configuration is not JSON.
\<close>

theorem archive_lock_gate_witness:
  "GET (running_key (listingUUID request_abc)) (redis waiting) = Some ''11/3/2026, 6:00:00 AM''
   \<and> snd (archive parse_sample ''11/3/2026, 6:00:10 AM'' request_abc waiting) = Resolved None
   \<and> HGET ''queued'' (clientId request_abc)
        (redis (fst (archive parse_sample ''11/3/2026, 6:00:10 AM'' request_abc waiting))) =
       Some ''abc http://x''
   \<and> GET (running_key (listingUUID request3)) (redis two_tenants) = None
   \<and> config_of parse_sample (clientId request3) (redis two_tenants) = Inr Null
   \<and> GET (running_key (listingUUID request3))
        (redis (fst (archive parse_sample ''11/3/2026, 6:00:10 AM'' request3 two_tenants))) =
       Some ''11/3/2026, 6:00:10 AM''
   \<and> expiry (running_key (listingUUID request3))
        (redis (fst (archive parse_sample ''11/3/2026, 6:00:10 AM'' request3 two_tenants))) = Some 30
   \<and> snd (archive parse_sample ''11/3/2026, 6:00:10 AM'' request3 two_tenants) =
       Resolved (Some (''t1'', [''u1 http://a'', ''u2 http://b'', ''u3 http://c''], request3))
   \<and> config_of parse_sample (clientId request3) (redis cut_config) = Inl (Thrown ''SyntaxError'')
   \<and> snd (archive parse_sample ''11/3/2026, 6:00:10 AM'' request3 cut_config) =
       Rejected (Thrown ''SyntaxError'')"
proof -
  have h: "GET (running_key (listingUUID request_abc)) (redis waiting) = Some ''11/3/2026, 6:00:00 AM''"
    by code_simp
  have n: "GET (running_key (listingUUID request3)) (redis two_tenants) = None"
    by code_simp
  have n': "GET (running_key (listingUUID request3)) (redis cut_config) = None"
    by code_simp
  have g: "config_of parse_sample (clientId request3) (redis two_tenants) = Inr Null"
    by code_simp
  have g': "config_of parse_sample (clientId request3) (redis cut_config) = Inl (Thrown ''SyntaxError'')"
    by code_simp
  have e: "listingUUID request_abc @ '' '' @ listingURL request_abc = ''abc http://x''"
    by (simp add: request_abc_def)
  have b: "batch request3 (redis two_tenants) = [''u1 http://a'', ''u2 http://b'', ''u3 http://c'']"
    by code_simp
  have c: "clientId request3 = ''t1''"
    by (simp add: request3_def)
  from h have "\<not> falsy (GET (running_key (listingUUID request_abc)) (redis waiting))"
    by (simp add: falsy_def)
  with archive_lock_gate[of parse_sample "''11/3/2026, 6:00:10 AM''" request_abc alone waiting
      "Thrown []" Null]
  have p0: "archive parse_sample ''11/3/2026, 6:00:10 AM'' request_abc waiting =
      (waiting\<lparr>redis := HSET ''queued'' (clientId request_abc)
                 (listingUUID request_abc @ '' '' @ listingURL request_abc) (redis waiting)\<rparr>,
       Resolved None)"
    and p1: "HGET ''queued'' (clientId request_abc)
        (redis (fst (archive parse_sample ''11/3/2026, 6:00:10 AM'' request_abc waiting))) =
       Some (listingUUID request_abc @ '' '' @ listingURL request_abc)"
    by blast+
  from p0 have p2: "snd (archive parse_sample ''11/3/2026, 6:00:10 AM'' request_abc waiting) =
      Resolved None"
    by simp
  note p = p1 p2
  from n have f: "falsy (GET (running_key (listingUUID request3)) (redis two_tenants))"
    by (simp add: falsy_def)
  from f g archive_lock_gate[of parse_sample "''11/3/2026, 6:00:10 AM''" request3 alone two_tenants
      "Thrown []" Null]
  have q: "GET (running_key (listingUUID request3))
        (redis (fst (archive parse_sample ''11/3/2026, 6:00:10 AM'' request3 two_tenants))) =
       Some ''11/3/2026, 6:00:10 AM''"
    "expiry (running_key (listingUUID request3))
        (redis (fst (archive parse_sample ''11/3/2026, 6:00:10 AM'' request3 two_tenants))) = Some 30"
    "snd (archive parse_sample ''11/3/2026, 6:00:10 AM'' request3 two_tenants) =
       Resolved (Some (clientId request3, batch request3 (redis two_tenants), request3))"
    by blast+
  from n' have f': "falsy (GET (running_key (listingUUID request3)) (redis cut_config))"
    by (simp add: falsy_def)
  from f' g' archive_lock_gate[of parse_sample "''11/3/2026, 6:00:10 AM''" request3 alone cut_config
      "Thrown ''SyntaxError''" Null]
  have "archive parse_sample ''11/3/2026, 6:00:10 AM'' request3 cut_config =
       (cut_config, Rejected (Thrown ''SyntaxError''))"
    by blast
  then have r: "snd (archive parse_sample ''11/3/2026, 6:00:10 AM'' request3 cut_config) =
       Rejected (Thrown ''SyntaxError'')"
    by simp
  show ?thesis
    using h n g g' p q r by (simp only: e b c simp_thms)
qed

subsection \<open>C5: a run releases the locks of its batch, however it ends\<close>

text \<open>
  C5. For every batch, crawler and store, and whether the awaited run completes or
  throws: once \<^verbatim>\<open>run\<close> has ended, the key \<^verbatim>\<open>running-<uuid>\<close> is absent for the uuid
  that \<^verbatim>\<open>run\<close> reads from each entry of the batch (the text before the first space).
  For an entry \<^verbatim>\<open>"<uuid> <url>"\<close> as \<^verbatim>\<open>archive\<close> builds it from a uuid without a space,
  that is the lock of the request. The store left by a run that throws is the store
  left by a run that completes.
\<close>

theorem run_releases_locks:
  "(\<forall>m \<in> set urlMap.
      GET (running_key (interpolate (index (js_split CHR '' '' m) 0)))
        (snd (run ending c urlMap opts s)) = None)
   \<and> (\<forall>uuid u. CHR '' '' \<notin> set uuid \<and> uuid @ '' '' @ u \<in> set urlMap \<longrightarrow>
         GET (running_key uuid) (snd (run ending c urlMap opts s)) = None)
   \<and> snd (run (Threw e) c urlMap opts s) = snd (run Completed c urlMap opts s)"
proof (intro conjI ballI allI impI)
  fix m assume "m \<in> set urlMap"
  then show "GET (running_key (interpolate (index (js_split CHR '' '' m) 0)))
        (snd (run ending c urlMap opts s)) = None"
    by (simp add: run_store GET_fold_DEL)
next
  fix uuid u assume h: "CHR '' '' \<notin> set uuid \<and> uuid @ '' '' @ u \<in> set urlMap"
  then have "js_split CHR '' '' (uuid @ '' '' @ u) = uuid # js_split CHR '' '' u"
    using js_split_head[of "CHR '' ''" uuid u] by simp
  then have "interpolate (index (js_split CHR '' '' (uuid @ '' '' @ u)) 0) = uuid"
    by (simp add: index_0 interpolate_def)
  then have "running_key uuid \<in>
      (\<lambda>m. running_key (interpolate (index (js_split CHR '' '' m) 0))) ` set urlMap"
    using h by force
  then show "GET (running_key uuid) (snd (run ending c urlMap opts s)) = None"
    by (simp add: run_store GET_fold_DEL)
next
  show "snd (run (Threw e) c urlMap opts s) = snd (run Completed c urlMap opts s)"
    by (simp add: run_store)
qed

text \<open>
  A batch of two entries on a store that holds both locks and a third: the run throws,
  both locks of the batch are gone, the third stays.
\<close>

theorem run_releases_locks_witness:
  "GET (running_key ''u1'') three_locks = Some ''11/3/2026, 6:00:00 AM''
   \<and> GET (running_key ''u1'')
         (snd (run timed_out idle [''u1 http://a'', ''u2 http://b''] request2 three_locks)) = None
   \<and> GET (running_key ''u2'')
         (snd (run timed_out idle [''u1 http://a'', ''u2 http://b''] request2 three_locks)) = None
   \<and> GET (running_key ''u9'')
         (snd (run timed_out idle [''u1 http://a'', ''u2 http://b''] request2 three_locks)) =
       Some ''11/3/2026, 6:00:02 AM''"
proof -
  note t = run_releases_locks[of "[''u1 http://a'', ''u2 http://b'']" timed_out idle
      request2 three_locks]
  have a: "CHR '' '' \<notin> set ''u1'' \<and>
      ''u1'' @ '' '' @ ''http://a'' \<in> set [''u1 http://a'', ''u2 http://b'']"
    by simp
  have b: "CHR '' '' \<notin> set ''u2'' \<and>
      ''u2'' @ '' '' @ ''http://b'' \<in> set [''u1 http://a'', ''u2 http://b'']"
    by simp
  have 0: "GET (running_key ''u1'') three_locks = Some ''11/3/2026, 6:00:00 AM''"
    by code_simp
  have 1: "GET (running_key ''u1'')
         (snd (run timed_out idle [''u1 http://a'', ''u2 http://b''] request2 three_locks)) = None"
    using t a by blast
  have 2: "GET (running_key ''u2'')
         (snd (run timed_out idle [''u1 http://a'', ''u2 http://b''] request2 three_locks)) = None"
    using t b by blast
  have 3: "GET (running_key ''u9'')
         (snd (run timed_out idle [''u1 http://a'', ''u2 http://b''] request2 three_locks)) =
       Some ''11/3/2026, 6:00:02 AM''"
    by code_simp
  show ?thesis using 0 1 2 3 by simp
qed

subsection \<open>C6: the drain empties the hash for every tenant\<close>

text \<open>
  C6 says that \<^verbatim>\<open>archive\<close> drains exactly the entries of the requesting tenant and
  leaves those of other tenants. The calls \<^verbatim>\<open>HVALS(`queued`, clientId)\<close> and
  \<^verbatim>\<open>HKEYS(`queued`, clientId)\<close> name the tenant, but the commands take the key of the
  hash only and return every field; \<^verbatim>\<open>HDEL\<close> then deletes each of them. With entries
  queued for \<^verbatim>\<open>t1\<close> and \<^verbatim>\<open>t2\<close> and a request of \<^verbatim>\<open>t1\<close>: the entry of \<^verbatim>\<open>t2\<close> is in the
  store before the call, gone after it, and part of the batch started for \<^verbatim>\<open>t1\<close>.
\<close>

theorem drain_takes_other_tenants:
  "HGET ''queued'' ''t2'' (redis two_tenants) = Some ''u2 http://b''
   \<and> HGET ''queued'' ''t2''
        (redis (fst (archive parse_sample ''11/3/2026, 6:00:10 AM'' request3 two_tenants))) = None
   \<and> HGET ''queued'' ''t1''
        (redis (fst (archive parse_sample ''11/3/2026, 6:00:10 AM'' request3 two_tenants))) = None
   \<and> snd (archive parse_sample ''11/3/2026, 6:00:10 AM'' request3 two_tenants) =
        Resolved (Some (''t1'', [''u1 http://a'', ''u2 http://b'', ''u3 http://c''], request3))"
  by code_simp

subsection \<open>C7: the batch is deduplicated by entry, not by URL\<close>

text \<open>
  C7 says that the batch is deduplicated by URL. The \<^verbatim>\<open>Set\<close> of line 48 holds the
  entries \<^verbatim>\<open>"<uuid> <url>"\<close>, so two entries for one URL under different uuids are two
  members: with \<^verbatim>\<open>http://a\<close> queued under \<^verbatim>\<open>u1\<close> and requested under \<^verbatim>\<open>u2\<close>, the
  batch has both, and \<^verbatim>\<open>run\<close> hands the crawler the URL twice.
\<close>

theorem batch_repeats_url:
  "snd (archive parse_sample ''11/3/2026, 6:00:10 AM'' same_page one_pending) =
     Resolved (Some (''t1'', [''u1 http://a'', ''u2 http://a''], same_page))
   \<and> map url (requests_of [''u1 http://a'', ''u2 http://a''] same_page) =
     [Some ''http://a'', Some ''http://a'']"
  by code_simp

text \<open>
  C7, amended. When \<^verbatim>\<open>archive\<close> finds the lock absent, the batch it starts a run of has
  no entry twice (entries compared as the whole string \<^verbatim>\<open>"<uuid> <url>"\<close>), holds the
  entry of the request, and holds the entry queued for the tenant of the request when
  there is one and it is not the empty string. This holds of every batch a call starts
  a run of; and a call that finds the lock absent, or holding the empty string, does
  start one, unless \<^verbatim>\<open>JSON.parse\<close> throws on the tenant's configuration.
\<close>

theorem batch_deduplicated_by_entry:
  "(snd (archive JSON_parse now opts w) = Resolved (Some (client, urls, given)) \<longrightarrow>
      client = clientId opts \<and> given = opts
      \<and> distinct urls
      \<and> listingUUID opts @ '' '' @ listingURL opts \<in> set urls
      \<and> (\<forall>e. HGET ''queued'' (clientId opts) (redis w) = Some e \<and> e \<noteq> [] \<longrightarrow> e \<in> set urls))
   \<and> (falsy (GET (running_key (listingUUID opts)) (redis w))
        \<and> config_of JSON_parse (clientId opts) (redis w) = Inr u \<longrightarrow>
        (\<exists>urls. snd (archive JSON_parse now opts w) = Resolved (Some (clientId opts, urls, opts))))"
proof (intro conjI impI)
  assume d: "snd (archive JSON_parse now opts w) = Resolved (Some (client, urls, given))"
  then have b: "client = clientId opts \<and> given = opts \<and> urls = batch opts (redis w)"
    by (cases rule: launches_cases[where opts = opts and w = w and P = JSON_parse])
       (auto simp: archive_alone)
  from b show "client = clientId opts" by simp
  from b show "given = opts" by simp
  from b show "distinct urls"
    by (simp add: batch_def distinct_Array_from_Set)
  from b show "listingUUID opts @ '' '' @ listingURL opts \<in> set urls"
    by (simp add: batch_def set_Array_from_Set entry_of_def)
  from b show "\<forall>e. HGET ''queued'' (clientId opts) (redis w) = Some e \<and> e \<noteq> [] \<longrightarrow> e \<in> set urls"
    using HGET_in_HVALS[of "''queued''" "clientId opts" "redis w"]
    by (auto simp: batch_def set_Array_from_Set)
next
  assume "falsy (GET (running_key (listingUUID opts)) (redis w))
        \<and> config_of JSON_parse (clientId opts) (redis w) = Inr u"
  then show "\<exists>urls. snd (archive JSON_parse now opts w) =
      Resolved (Some (clientId opts, urls, opts))"
    by (simp add: archive_alone)
qed

theorem batch_deduplicated_by_entry_witness:
  "GET (running_key (listingUUID same_page)) (redis one_pending) = None
   \<and> HGET ''queued'' (clientId same_page) (redis one_pending) = Some ''u1 http://a''
   \<and> snd (archive parse_sample ''11/3/2026, 6:00:10 AM'' same_page one_pending) =
       Resolved (Some (''t1'', [''u1 http://a'', ''u2 http://a''], same_page))
   \<and> distinct [''u1 http://a'', ''u2 http://a'']
   \<and> listingUUID same_page @ '' '' @ listingURL same_page \<in> set [''u1 http://a'', ''u2 http://a'']
   \<and> ''u1 http://a'' \<in> set [''u1 http://a'', ''u2 http://a'']"
proof -
  have n: "GET (running_key (listingUUID same_page)) (redis one_pending) = None"
    by code_simp
  have q: "HGET ''queued'' (clientId same_page) (redis one_pending) = Some ''u1 http://a''"
    by code_simp
  have d: "snd (archive parse_sample ''11/3/2026, 6:00:10 AM'' same_page one_pending) =
       Resolved (Some (''t1'', [''u1 http://a'', ''u2 http://a''], same_page))"
    by code_simp
  from d batch_deduplicated_by_entry[of parse_sample "''11/3/2026, 6:00:10 AM''" same_page
      one_pending "''t1''" "[''u1 http://a'', ''u2 http://a'']" same_page Null]
  have p: "distinct [''u1 http://a'', ''u2 http://a'']"
    "listingUUID same_page @ '' '' @ listingURL same_page \<in> set [''u1 http://a'', ''u2 http://a'']"
    "\<forall>e. HGET ''queued'' (clientId same_page) (redis one_pending) = Some e \<and> e \<noteq> [] \<longrightarrow>
         e \<in> set [''u1 http://a'', ''u2 http://a'']"
    by blast+
  from p(3) q have "''u1 http://a'' \<in> set [''u1 http://a'', ''u2 http://a'']"
    by blast
  with n q d p(1,2) show ?thesis by blast
qed

subsection \<open>C8: the reset leaves the queue\<close>

text \<open>
  C8 says that after the reset signal the locks, the queued entries and the scores are
  gone. The handler deletes the keys matching \<^verbatim>\<open>queued-*\<close>, but \<^verbatim>\<open>archive\<close> keeps the
  entries in the hash at the key \<^verbatim>\<open>queued\<close>, which the pattern does not match. With
  the lock \<^verbatim>\<open>running-abc\<close> held and an entry queued for \<^verbatim>\<open>t1\<close>: after the handler the
  lock and the score are gone and the entry is still there.
\<close>

theorem reset_leaves_queue:
  "GET ''running-abc'' (SIGUSR2 held) = None
   \<and> ZSCORE ''crawlers'' ''t1'' (SIGUSR2 held) = None
   \<and> KEYS ''queued-*'' held = []
   \<and> HGET ''queued'' ''t1'' (SIGUSR2 held) = Some ''abc http://x''"
  by code_simp

subsection \<open>C9: every request of a batch carries the options of the call that dispatched it\<close>

text \<open>
  C9 says that each URL of a batch is tagged with the options of the request that
  queued it. The queue keeps \<^verbatim>\<open>"<uuid> <url>"\<close> and nothing else of a request, and
  \<^verbatim>\<open>run\<close> builds every request of the batch with the one \<^verbatim>\<open>options\<close> it was called
  with. A request for \<^verbatim>\<open>u1\<close> (page \<^verbatim>\<open>http://a\<close>) arrives while \<^verbatim>\<open>u1\<close> is locked and is
  queued; a request for \<^verbatim>\<open>u2\<close> follows and dispatches both. The request built for
  \<^verbatim>\<open>http://a\<close> carries the options of the second call, and the \<^verbatim>\<open>crawled\<close> event of
  that page names \<^verbatim>\<open>u2\<close> and \<^verbatim>\<open>p2\<close>.
\<close>

theorem queued_url_tagged_with_dispatching_request:
  "snd (archive parse_sample ''11/3/2026, 6:00:05 AM'' request1 u1_locked) = Resolved None
   \<and> snd (archive parse_sample ''11/3/2026, 6:00:10 AM'' request2
            (fst (archive parse_sample ''11/3/2026, 6:00:05 AM'' request1 u1_locked))) =
       Resolved (Some (''t1'', [''u1 http://a'', ''u2 http://b''], request2))
   \<and> requests_of [''u1 http://a'', ''u2 http://b''] request2 =
       [\<lparr>url = Some ''http://a'', userData = request2\<rparr>,
        \<lparr>url = Some ''http://b'', userData = request2\<rparr>]
   \<and> listingUUID (crawled \<lparr>url = Some ''http://a'', userData = request2\<rparr> ''<html></html>'' []) = ''u2''
   \<and> listingPid (crawled \<lparr>url = Some ''http://a'', userData = request2\<rparr> ''<html></html>'' []) = ''p2''
   \<and> listingUUID request1 = ''u1''"
  by code_simp

text \<open>
  C9, amended. When a batch is dispatched, \<^verbatim>\<open>run\<close> builds one request per entry, with
  the URL read from the entry (the text between the first and the second space) and
  the options of the call of \<^verbatim>\<open>archive\<close> that dispatched the batch, whichever request
  queued the entry. Those requests are what the crawler is given: a running crawler has
  them added to its queue, an idle one is run on them.
\<close>

theorem requests_carry_dispatching_options:
  "map userData (requests_of urlMap opts) = map (\<lambda>m. opts) urlMap
   \<and> map url (requests_of urlMap opts) = map (\<lambda>m. index (js_split CHR '' '' m) 1) urlMap
   \<and> requestQueue (fst (run ending (c\<lparr>running := True\<rparr>) urlMap opts s)) =
       requestQueue c @ requests_of urlMap opts
   \<and> requestQueue (fst (run (Threw e) (c\<lparr>running := False\<rparr>) urlMap opts s)) =
       requestQueue c @ requests_of urlMap opts"
  by (simp add: requests_of_def run_def Let_def addRequests_def comp_def)

theorem requests_carry_dispatching_options_witness:
  "map userData (requests_of [''u1 http://a'', ''u2 http://b''] request2) = [request2, request2]
   \<and> map url (requests_of [''u1 http://a'', ''u2 http://b''] request2) =
       [Some ''http://a'', Some ''http://b'']"
proof -
  have "map (\<lambda>m. index (js_split CHR '' '' m) 1) [''u1 http://a'', ''u2 http://b''] =
      [Some ''http://a'', Some ''http://b'']"
    by code_simp
  then show ?thesis
    using requests_carry_dispatching_options[of "[''u1 http://a'', ''u2 http://b'']" request2]
    by simp
qed

subsection \<open>C10: the recorded number of crawlers only grows until the reset\<close>

text \<open>
  C10. \<^verbatim>\<open>launchCrawler\<close> raises the tenant's score in \<^verbatim>\<open>crawlers\<close> by one. A run leaves
  every score as it found it, whether it completes or throws, and so does the handler
  of \<^verbatim>\<open>crawled\<close>. Over any sequence of calls of \<^verbatim>\<open>archive\<close>, each followed by its run, a
  tenant's score never falls and a score that is there stays there: what a finished
  batch used is not given back. Only the handler of \<^verbatim>\<open>SIGUSR2\<close> removes the scores.
\<close>

theorem recorded_workers_only_grow:
  "ZSCORE ''crawlers'' client (snd (launchCrawler client s)) = Some (workers_recorded client s + 1)
   \<and> ZSCORE ''crawlers'' tenant (snd (run ending c urlMap opts s)) = ZSCORE ''crawlers'' tenant s
   \<and> (case on_crawled saveAdToPages parseMetadata t p s of
         Inl e \<Rightarrow> True
       | Inr (s', a) \<Rightarrow> ZSCORE ''crawlers'' tenant s' = ZSCORE ''crawlers'' tenant s)
   \<and> workers_recorded tenant (redis w)
        \<le> workers_recorded tenant (redis (fold (archive_call JSON_parse) calls w))
   \<and> (ZSCORE ''crawlers'' tenant (redis w) = None
        \<or> ZSCORE ''crawlers'' tenant (redis (fold (archive_call JSON_parse) calls w)) \<noteq> None)
   \<and> ZSCORE ''crawlers'' tenant (SIGUSR2 s) = None"
proof (intro conjI)
  show "ZSCORE ''crawlers'' client (snd (launchCrawler client s)) =
      Some (workers_recorded client s + 1)"
    by (simp add: launchCrawler_def ZSCORE_ZINCRBY workers_recorded_def)
  show "ZSCORE ''crawlers'' tenant (snd (run ending c urlMap opts s)) = ZSCORE ''crawlers'' tenant s"
    by (simp add: ZSCORE_def zset_at_run)
  show "case on_crawled saveAdToPages parseMetadata t p s of
         Inl e \<Rightarrow> True
       | Inr (s', a) \<Rightarrow> ZSCORE ''crawlers'' tenant s' = ZSCORE ''crawlers'' tenant s"
  proof (cases "on_crawled saveAdToPages parseMetadata t p s")
    case (Inl e)
    then show ?thesis by simp
  next
    case (Inr r)
    obtain s' a where r: "r = (s', a)" by (cases r) auto
    have "zset_at ''crawlers'' s' = zset_at ''crawlers'' s"
      using Inr r by (auto dest: on_crawled_zset)
    then show ?thesis by (simp add: Inr r ZSCORE_def)
  qed
  show "workers_recorded tenant (redis w)
        \<le> workers_recorded tenant (redis (fold (archive_call JSON_parse) calls w))"
    by (rule workers_recorded_calls)
  show "ZSCORE ''crawlers'' tenant (redis w) = None
        \<or> ZSCORE ''crawlers'' tenant (redis (fold (archive_call JSON_parse) calls w)) \<noteq> None"
    using score_kept_calls[of tenant w JSON_parse calls] by blast
  show "ZSCORE ''crawlers'' tenant (SIGUSR2 s) = None"
    by (simp add: ZSCORE_def zset_at_SIGUSR2)
qed

text \<open>
  Two requests of \<^verbatim>\<open>t1\<close> on a fresh worker, both runs completed: the score is 1 and
  stays 1 after the runs; only the reset removes it.
\<close>

theorem recorded_workers_only_grow_witness:
  "workers_recorded ''t1'' (redis fresh) = 0
   \<and> ZSCORE ''crawlers'' ''t1''
        (redis (fold (archive_call parse_sample)
                  [(''11/3/2026, 6:00:05 AM'', request1, Completed),
                   (''11/3/2026, 6:00:10 AM'', request2, timed_out)] fresh)) = Some 1
   \<and> workers_recorded ''t1'' (redis fresh)
        \<le> workers_recorded ''t1''
            (redis (fold (archive_call parse_sample)
                      [(''11/3/2026, 6:00:05 AM'', request1, Completed),
                       (''11/3/2026, 6:00:10 AM'', request2, timed_out)] fresh))
   \<and> ZSCORE ''crawlers'' ''t1''
        (SIGUSR2 (redis (fold (archive_call parse_sample)
                  [(''11/3/2026, 6:00:05 AM'', request1, Completed),
                   (''11/3/2026, 6:00:10 AM'', request2, timed_out)] fresh))) = None"
proof -
  have 0: "workers_recorded ''t1'' (redis fresh) = 0"
    by code_simp
  have 1: "ZSCORE ''crawlers'' ''t1''
        (redis (fold (archive_call parse_sample)
                  [(''11/3/2026, 6:00:05 AM'', request1, Completed),
                   (''11/3/2026, 6:00:10 AM'', request2, timed_out)] fresh)) = Some 1"
    by code_simp
  show ?thesis
    using 0 1
      recorded_workers_only_grow[where tenant = "''t1''" and w = fresh and JSON_parse = parse_sample
        and calls = "[(''11/3/2026, 6:00:05 AM'', request1, Completed),
                      (''11/3/2026, 6:00:10 AM'', request2, timed_out)]"
        and s = "redis (fold (archive_call parse_sample)
                  [(''11/3/2026, 6:00:05 AM'', request1, Completed),
                   (''11/3/2026, 6:00:10 AM'', request2, timed_out)] fresh)"]
    by simp
qed

subsection \<open>C2: the limit holds for calls one after another from a fresh start\<close>


text \<open>
  The limit is also passed when two calls overlap, on a fresh worker and an empty
  store. A call reads the score at line 40 and tests it at line 54, four awaits later.
  Two calls of \<^verbatim>\<open>t1\<close>, for different pages, are resumed in turn: both read that \<^verbatim>\<open>t1\<close>
  has no score. The first finds no crawler in the registry, launches one (score 1) and
  ends. The second now finds a crawler in the registry, tests the score it read, which
  is none, and launches another (score 2). Both calls end with their run started, and
  the score is 2 with a limit of 1.
\<close>

lemma overlapping_calls_exceed_limit:
  "crawlers fresh ''t1'' = None
   \<and> ZSCORE ''crawlers'' ''t1'' (redis fresh) = None
   \<and> config_of parse_sample ''t1'' (redis fresh) = Inr Null
   \<and> crawlerLimit Null = 1
   \<and> snd (interleave parse_sample (''11/3/2026, 6:00:05 AM'', request1)
             (''11/3/2026, 6:00:05 AM'', request2) (take 12 in_turn) (fresh, Called, Called)) =
       (Resolved (Some (''t1'', [''u1 http://a''], request1)),
        Await_exec Null None [Array [], Array []])
   \<and> crawlers (fst (interleave parse_sample (''11/3/2026, 6:00:05 AM'', request1)
                       (''11/3/2026, 6:00:05 AM'', request2) (take 12 in_turn)
                       (fresh, Called, Called))) ''t1'' =
       Some \<lparr>running = False, requestQueue = []\<rparr>
   \<and> ZSCORE ''crawlers'' ''t1''
        (redis (fst (interleave parse_sample (''11/3/2026, 6:00:05 AM'', request1)
                       (''11/3/2026, 6:00:05 AM'', request2) (take 12 in_turn)
                       (fresh, Called, Called)))) = Some 1
   \<and> snd (interleave parse_sample (''11/3/2026, 6:00:05 AM'', request1)
             (''11/3/2026, 6:00:05 AM'', request2) in_turn (fresh, Called, Called)) =
       (Resolved (Some (''t1'', [''u1 http://a''], request1)),
        Resolved (Some (''t1'', [''u2 http://b''], request2)))
   \<and> ZSCORE ''crawlers'' ''t1''
        (redis (fst (interleave parse_sample (''11/3/2026, 6:00:05 AM'', request1)
                       (''11/3/2026, 6:00:05 AM'', request2) in_turn
                       (fresh, Called, Called)))) = Some 2"
  by code_simp



subsection \<open>C3: the ledger is not pruned\<close>

text \<open>
  C3 says that the set \<^verbatim>\<open>recent_listings\<close> never has more than 10 members, and that
  an insert into a set of 10 or more removes a member first. \<^verbatim>\<open>addSetItem\<close> is written
  to do so, but \<^verbatim>\<open>const currentSize = multi.SCARD(setKey)\<close> is the command queue, not the
  size: \<^verbatim>\<open>currentSize < maxSize\<close> is false, \<^verbatim>\<open>currentSize - maxSize + 1\<close> is \<^verbatim>\<open>NaN\<close>, the
  loop body never runs, and the item is added. Eleven inserts of different items into
  the empty set leave eleven members: the eleventh insert finds ten and removes none.
\<close>

theorem ledger_grows_past_capacity:
  "SCARD ''recent_listings'' (fold insert_item (take 10 eleven_items) empty_store) = 10
   \<and> addSetItem [] ''recent_listings'' ''pid-k'' 10 =
       [SCARD_cmd ''recent_listings'', SADD_cmd ''recent_listings'' ''pid-k'']
   \<and> SCARD ''recent_listings'' (fold insert_item eleven_items empty_store) = 11"
  by code_simp

subsection \<open>C4: the record in \<^verbatim>\<open>archives\<close> is the payload, without the locator\<close>

text \<open>
  C4 says that the record written to \<^verbatim>\<open>archives\<close> is the payload extended with
  \<^verbatim>\<open>gitUrl\<close>. The handler writes \<^verbatim>\<open>JSON.stringify(payload)\<close>; \<^verbatim>\<open>gitUrl\<close> goes into the
  \<^verbatim>\<open>archived\<close> event only. For a rendered page of \<^verbatim>\<open>request1\<close>: the event carries the
  locator, the field \<^verbatim>\<open>p1\<close> of \<^verbatim>\<open>archives\<close> holds the payload as it came and not the
  record of the event.
\<close>

theorem archives_record_lacks_gitUrl:
  "(case on_crawled saved parsed 1793685600000 page1 empty_store of
      Inl e \<Rightarrow> False
    | Inr (s', a) \<Rightarrow>
        gitUrl a = ''https://pages.example/p1''
        \<and> HGET ''archives'' ''p1'' s' = Some (JSON_stringify (JObj (payload_object page1)))
        \<and> HGET ''archives'' ''p1'' s' \<noteq> Some (JSON_stringify (JObj (archived_object a))))"
proof -
  have a: "saved (listingURL page1) (html page1) (imageUrls page1) = Inr ''https://pages.example/p1''"
    by (simp add: saved_def)
  have b: "parsed (html page1) = Inr (JObj [(''title'', JStr ''a'')])"
    by (simp add: parsed_def)
  have p: "listingPid page1 = ''p1''"
    by code_simp
  have d: "JSON_stringify (JObj (payload_object page1)) \<noteq>
      JSON_stringify (JObj (archived_object
        (payload.extend page1 (archived.fields ''https://pages.example/p1''))))"
    by code_simp
  have g: "gitUrl (payload.extend page1 (archived.fields ''https://pages.example/p1'')) =
      ''https://pages.example/p1''"
    by (simp add: payload.extend_def archived.fields_def)
  note r = on_crawled_ok[of saved page1 "''https://pages.example/p1''" parsed
      "JObj [(''title'', JStr ''a'')]" 1793685600000 empty_store, OF a b]
  show ?thesis
    using d g
    by (simp add: r p HGET_def hash_at_SADD hash_at_HSET update_conv'
        del: JSON_stringify.simps)
qed

text \<open>
  C4, amended. For every \<^verbatim>\<open>crawled\<close> event for which the page store and the metadata
  parser both answer: the handler writes one field of \<^verbatim>\<open>archives\<close>, the one named by
  \<^verbatim>\<open>listingPid\<close>, and its value is the payload as JSON, without \<^verbatim>\<open>gitUrl\<close>; every
  other field of \<^verbatim>\<open>archives\<close> is as before; the set \<^verbatim>\<open>recent_listings\<close> is as before
  with the one recent listing of the event added; and the \<^verbatim>\<open>archived\<close> event carries
  the payload extended with \<^verbatim>\<open>gitUrl\<close>. When either service throws, the handler ends
  with that error, having written nothing and emitted nothing.
\<close>

theorem on_crawled_writes_payload:
  "(saveAdToPages (listingURL p) (html p) (imageUrls p) = Inr git
      \<and> parseMetadata (html p) = Inr metadata \<longrightarrow>
      (\<exists>s'. on_crawled saveAdToPages parseMetadata now p s =
               Inr (s', payload.extend p (archived.fields git))
         \<and> HGET ''archives'' (listingPid p) s' = Some (JSON_stringify (JObj (payload_object p)))
         \<and> (\<forall>pid. pid \<noteq> listingPid p \<longrightarrow> HGET ''archives'' pid s' = HGET ''archives'' pid s)
         \<and> set (set_at ''recent_listings'' s') =
             insert (JSON_stringify (JObj [(''listingPid'', JStr (listingPid p)),
                                           (''metadata'', metadata), (''createdAt'', JNum now)]))
               (set (set_at ''recent_listings'' s)))
      \<and> gitUrl (payload.extend p (archived.fields git)) = git
      \<and> payload.truncate (payload.extend p (archived.fields git)) = p)
   \<and> (saveAdToPages (listingURL p) (html p) (imageUrls p) = Inl e \<longrightarrow>
        on_crawled saveAdToPages parseMetadata now p s = Inl e)
   \<and> (saveAdToPages (listingURL p) (html p) (imageUrls p) = Inr git
        \<and> parseMetadata (html p) = Inl e \<longrightarrow>
        on_crawled saveAdToPages parseMetadata now p s = Inl e)"
proof (intro conjI impI)
  assume ok: "saveAdToPages (listingURL p) (html p) (imageUrls p) = Inr git
      \<and> parseMetadata (html p) = Inr metadata"
  note r = on_crawled_ok[of saveAdToPages p git parseMetadata metadata now s]
  show "\<exists>s'. on_crawled saveAdToPages parseMetadata now p s =
               Inr (s', payload.extend p (archived.fields git))
         \<and> HGET ''archives'' (listingPid p) s' = Some (JSON_stringify (JObj (payload_object p)))
         \<and> (\<forall>pid. pid \<noteq> listingPid p \<longrightarrow> HGET ''archives'' pid s' = HGET ''archives'' pid s)
         \<and> set (set_at ''recent_listings'' s') =
             insert (JSON_stringify (JObj [(''listingPid'', JStr (listingPid p)),
                                           (''metadata'', metadata), (''createdAt'', JNum now)]))
               (set (set_at ''recent_listings'' s))"
    using ok
    by (simp add: r HGET_def hash_at_SADD hash_at_HSET update_conv' set_at_SADD set_at_HSET
        del: JSON_stringify.simps)
next
  show "gitUrl (payload.extend p (archived.fields git)) = git"
    by (simp add: payload.extend_def archived.fields_def)
next
  show "payload.truncate (payload.extend p (archived.fields git)) = p"
    by (simp add: payload.extend_def payload.truncate_def archived.fields_def)
next
  assume "saveAdToPages (listingURL p) (html p) (imageUrls p) = Inl e"
  then show "on_crawled saveAdToPages parseMetadata now p s = Inl e"
    by (simp add: on_crawled_def)
next
  assume "saveAdToPages (listingURL p) (html p) (imageUrls p) = Inr git
        \<and> parseMetadata (html p) = Inl e"
  then show "on_crawled saveAdToPages parseMetadata now p s = Inl e"
    by (simp add: on_crawled_def toRecentListing_def)
qed

theorem on_crawled_writes_payload_witness:
  "saved (listingURL page1) (html page1) (imageUrls page1) = Inr ''https://pages.example/p1''
   \<and> parsed (html page1) = Inr (JObj [(''title'', JStr ''a'')])
   \<and> (\<exists>s'. on_crawled saved parsed 1793685600000 page1 empty_store =
              Inr (s', payload.extend page1 (archived.fields ''https://pages.example/p1''))
        \<and> HGET ''archives'' (listingPid page1) s' =
            Some (JSON_stringify (JObj (payload_object page1))))"
proof -
  have a: "saved (listingURL page1) (html page1) (imageUrls page1) = Inr ''https://pages.example/p1''"
    by (simp add: saved_def)
  have b: "parsed (html page1) = Inr (JObj [(''title'', JStr ''a'')])"
    by (simp add: parsed_def)
  from a b on_crawled_writes_payload[of saved page1 "''https://pages.example/p1''" parsed
      "JObj [(''title'', JStr ''a'')]" 1793685600000 empty_store]
  have "\<exists>s'. on_crawled saved parsed 1793685600000 page1 empty_store =
              Inr (s', payload.extend page1 (archived.fields ''https://pages.example/p1''))
        \<and> HGET ''archives'' (listingPid page1) s' =
            Some (JSON_stringify (JObj (payload_object page1)))"
    by blast
  with a b show ?thesis by blast
qed

end
